theory Spec2Isabelle
  imports Main "HOL-Library.Sublist"
begin

section \<open>Python values used by the scrapper\<close>

text \<open>
  A Python \<open>str\<close> is modelled as a \<open>string\<close>, one \<open>char\<close> per code point; the model
  therefore covers the code points below 256, which include the non-breaking space
  U+00A0 that text assembly replaces. Every exception the module can raise is a value
  of \<open>error\<close>; a function that can raise returns \<open>error + 'a\<close>.
\<close>

datatype error =
    AttributeError | TypeError | ValueError | KeyError | RequestException
  | IncorrectSeedURLError | NumberOfArticlesOutOfRangeError
  | IncorrectNumberOfArticlesError | IncorrectHeadersError | IncorrectEncodingError
  | IncorrectTimeoutError | IncorrectVerifyError

text \<open>\<open>sep.join(parts)\<close>.\<close>

fun join :: "string \<Rightarrow> string list \<Rightarrow> string" where
  "join sep [] = []"
| "join sep [x] = x"
| "join sep (x # y # ys) = x @ sep @ join sep (y # ys)"

text \<open>\<open>xs[:-k]\<close> for a positive \<open>k\<close>: the stop index \<open>len(xs) - k\<close> is clamped at 0.\<close>

definition slice_to_neg :: "nat \<Rightarrow> 'a list \<Rightarrow> 'a list" where
  "slice_to_neg k xs = take (nat (max 0 (int (length xs) - int k))) xs"

text \<open>\<open>s[k::]\<close> for a non-negative \<open>k\<close>: everything from index \<open>k\<close>, empty when \<open>k\<close> is
  past the end.\<close>

definition slice_from :: "nat \<Rightarrow> 'a list \<Rightarrow> 'a list" where
  "slice_from k xs = drop k xs"

text \<open>\<open>str.isspace\<close> on one character (code points below 256) and \<open>str.strip()\<close>.\<close>

definition isspace :: "char \<Rightarrow> bool" where
  "isspace ch = (of_char ch \<in> {9, 10, 11, 12, 13, 28, 29, 30, 31, 32, 133, 160 :: nat})"

definition strip :: "string \<Rightarrow> string" where
  "strip s = rev (dropWhile isspace (rev (dropWhile isspace s)))"

section \<open>The parsed page\<close>

text \<open>
  A \<open>BeautifulSoup\<close> object is the tree the parser built: strings and tags; a tag has a
  name, an attribute dictionary and its contents. A string is of one of two kinds.
  \<open>Text\<close> is a string of the class \<open>NavigableString\<close> itself or of \<open>CData\<close>: these are
  the strings \<open>tag.text\<close> collects. \<open>Hidden\<close> is a string of any other class, which
  \<open>tag.text\<close> leaves out: a comment, a declaration, a doctype, a processing instruction,
  and every string the parser reads inside a \<open>script\<close>, \<open>style\<close>, \<open>template\<close>, \<open>rt\<close> or \<open>rp\<close>
  tag (classes \<open>Script\<close>, \<open>Stylesheet\<close>, \<open>TemplateString\<close>, \<open>RubyTextString\<close>,
  \<open>RubyParenthesisString\<close>). So the markup \<^verbatim>\<open><p>a<script>x</script>b</p>\<close> is the tree
  \<open>Elem ''p'' [] [Text ''a'', Elem ''script'' [] [Hidden ''x''], Text ''b'']\<close>. An attribute
  value is a string, or a list of tokens for the multi-valued attributes (\<open>class\<close>).
\<close>

datatype attr_value = AStr string | AList "string list"

datatype node =
    Text string
  | Hidden string
  | Elem string "(string \<times> attr_value) list" "node list"

type_synonym soup = "node list"

fun tag_name :: "node \<Rightarrow> string" where
  "tag_name (Elem n as cs) = n"
| "tag_name (Text s) = []"
| "tag_name (Hidden s) = []"

text \<open>\<open>tag.get(key)\<close>: the attribute's value, or \<open>None\<close>.\<close>

fun get :: "node \<Rightarrow> string \<Rightarrow> attr_value option" where
  "get (Elem n as cs) k = map_of as k"
| "get (Text s) k = None"
| "get (Hidden s) k = None"

text \<open>All tags below a node, the node included, in document order.\<close>

fun tags_of :: "node \<Rightarrow> node list" where
  "tags_of (Elem n as cs) = Elem n as cs # concat (map tags_of cs)"
| "tags_of (Text s) = []"
| "tags_of (Hidden s) = []"

definition descendants :: "soup \<Rightarrow> node list" where
  "descendants bs = concat (map tags_of bs)"

text \<open>
  The \<open>class_\<close> filter: a list-valued attribute matches when one token equals the
  wanted string or when the tokens joined by one space do; a string-valued one when it
  is equal; a missing one never.
\<close>

fun class_matches :: "attr_value option \<Rightarrow> string \<Rightarrow> bool" where
  "class_matches None c = False"
| "class_matches (Some (AStr s)) c = (s = c)"
| "class_matches (Some (AList ts)) c = (c \<in> set ts \<or> join '' '' ts = c)"

definition matches :: "string option \<Rightarrow> string option \<Rightarrow> node \<Rightarrow> bool" where
  "matches name cls e =
     ((case name of None \<Rightarrow> True | Some n \<Rightarrow> tag_name e = n) \<and>
      (case cls of None \<Rightarrow> True | Some c \<Rightarrow> class_matches (get e ''class'') c))"

text \<open>\<open>soup.find_all(name, class_=cls)\<close> and \<open>soup.find(name)\<close>.\<close>

definition find_all :: "string option \<Rightarrow> string option \<Rightarrow> soup \<Rightarrow> node list" where
  "find_all name cls bs = filter (matches name cls) (descendants bs)"

definition find_first :: "string \<Rightarrow> soup \<Rightarrow> node option" where
  "find_first name bs =
     (case find_all (Some name) None bs of [] \<Rightarrow> None | e # es \<Rightarrow> Some e)"

section \<open>Dates\<close>

text \<open>
  What \<open>datetime.datetime.strptime(date_str, '%Y-%m-%dT%H:%M:%S%z')\<close> computes. The
  standard library turns the format into the regular expression
  \<^verbatim>\<open>(?P<Y>\d\d\d\d)-(?P<m>1[0-2]|0[1-9]|[1-9])-(?P<d>3[0-1]|[1-2]\d|0[1-9]|[1-9]| [1-9])T\<close>
  \<^verbatim>\<open>(?P<H>2[0-3]|[0-1]\d|\d):(?P<M>[0-5]\d|\d):(?P<S>6[0-1]|[0-5]\d|\d)\<close>
  \<^verbatim>\<open>(?P<z>[+-]\d\d:?[0-5]\d(:?[0-5]\d(\.\d{1,6})?)?|(?-i:Z))\<close>,
  matched ignoring case at the start of the string; the whole string must be consumed,
  the fields must form a date and a time that exist, and the offset must lie strictly
  between minus and plus 24 hours. Every failure is a \<open>ValueError\<close>. Each numeric field
  is followed by a character that is not a digit, so the first alternative that matches
  where it stands is the one the regular expression settles on.
\<close>

record datetime =
  year :: nat
  month :: nat
  day :: nat
  hour :: nat
  minute :: nat
  second :: nat
  microsecond :: nat
  utcoffset :: int \<comment> \<open>the offset of \<open>tzinfo\<close>, in microseconds\<close>

definition isdigit :: "char \<Rightarrow> bool" where
  "isdigit ch = (ch \<in> set ''0123456789'')"

definition digit :: "char \<Rightarrow> nat" where
  "digit ch = of_char ch - 48"

text \<open>A character of the first class followed by one of the second; one character of
  a class; a literal character.\<close>

fun two :: "string \<Rightarrow> string \<Rightarrow> string \<Rightarrow> (nat \<times> string) option" where
  "two p q (a # b # s) =
     (if a \<in> set p \<and> b \<in> set q then Some (10 * digit a + digit b, s) else None)"
| "two p q s = None"

fun one :: "string \<Rightarrow> string \<Rightarrow> (nat \<times> string) option" where
  "one p (a # s) = (if a \<in> set p then Some (digit a, s) else None)"
| "one p [] = None"

fun lit :: "string \<Rightarrow> string \<Rightarrow> string option" where
  "lit p (a # s) = (if a \<in> set p then Some s else None)"
| "lit p [] = None"

text \<open>The first alternative that matches.\<close>

fun alts :: "'a option list \<Rightarrow> 'a option" where
  "alts [] = None"
| "alts (None # rs) = alts rs"
| "alts (Some r # rs) = Some r"

definition re_Y :: "string \<Rightarrow> (nat \<times> string) option" where
  "re_Y s =
     (case two ''0123456789'' ''0123456789'' s of
        None \<Rightarrow> None
      | Some (hi, s1) \<Rightarrow>
          (case two ''0123456789'' ''0123456789'' s1 of
             None \<Rightarrow> None
           | Some (lo, s2) \<Rightarrow> Some (100 * hi + lo, s2)))"

definition re_m :: "string \<Rightarrow> (nat \<times> string) option" where
  "re_m s = alts [two ''1'' ''012'' s, two ''0'' ''123456789'' s, one ''123456789'' s]"

definition re_d :: "string \<Rightarrow> (nat \<times> string) option" where
  "re_d s =
     alts [two ''3'' ''01'' s, two ''12'' ''0123456789'' s, two ''0'' ''123456789'' s,
           one ''123456789'' s,
           (case lit '' '' s of None \<Rightarrow> None | Some s1 \<Rightarrow> one ''123456789'' s1)]"

definition re_H :: "string \<Rightarrow> (nat \<times> string) option" where
  "re_H s = alts [two ''2'' ''0123'' s, two ''01'' ''0123456789'' s, one ''0123456789'' s]"

definition re_M :: "string \<Rightarrow> (nat \<times> string) option" where
  "re_M s = alts [two ''012345'' ''0123456789'' s, one ''0123456789'' s]"

definition re_S :: "string \<Rightarrow> (nat \<times> string) option" where
  "re_S s =
     alts [two ''6'' ''01'' s, two ''012345'' ''0123456789'' s, one ''0123456789'' s]"

text \<open>
  The group \<^verbatim>\<open>(\.\d{1,6})?\<close> of the offset: the digits it takes (none when the group
  does not match) and what is left.
\<close>

fun re_fraction :: "string \<Rightarrow> string \<times> string" where
  "re_fraction (a # b # s) =
     (if a = CHR ''.'' \<and> isdigit b
      then (let ds = takeWhile isdigit (take 6 (b # s)) in (ds, drop (length ds) (b # s)))
      else ([], a # b # s))"
| "re_fraction s = ([], s)"

fun digits_value :: "string \<Rightarrow> nat" where
  "digits_value [] = 0"
| "digits_value (a # s) = digit a * 10 ^ length s + digits_value s"

text \<open>
  The group \<^verbatim>\<open>(:?[0-5]\d(\.\d{1,6})?)?\<close>: whether it took a colon, the seconds, the
  fraction digits and the rest; \<open>None\<close> when the group does not match.
\<close>

definition re_offset_seconds :: "string \<Rightarrow> (bool \<times> nat \<times> string \<times> string) option" where
  "re_offset_seconds s =
     (case (case lit '':'' s of
              Some s1 \<Rightarrow>
                (case two ''012345'' ''0123456789'' s1 of
                   Some (ss, s2) \<Rightarrow> Some (True, ss, s2)
                 | None \<Rightarrow> None)
            | None \<Rightarrow>
                (case two ''012345'' ''0123456789'' s of
                   Some (ss, s2) \<Rightarrow> Some (False, ss, s2)
                 | None \<Rightarrow> None)) of
        None \<Rightarrow> None
      | Some (colon, ss, s2) \<Rightarrow>
          (case re_fraction s2 of (ds, s3) \<Rightarrow> Some (colon, ss, ds, s3)))"

text \<open>
  The directive \<open>%z\<close> on the rest of the string, which it has to consume: the offset in
  microseconds. After the match the library rejects an offset that writes one of its
  two colons and not the other.
\<close>

definition re_z :: "string \<Rightarrow> int option" where
  "re_z s =
     (if s = ''Z'' then Some 0
      else
        (case lit ''+-'' s of
           None \<Rightarrow> None
         | Some s1 \<Rightarrow>
             (case two ''0123456789'' ''0123456789'' s1 of
                None \<Rightarrow> None
              | Some (hh, s2) \<Rightarrow>
                  (let colon1 = (lit '':'' s2 \<noteq> None);
                       s3 = (case lit '':'' s2 of Some r \<Rightarrow> r | None \<Rightarrow> s2)
                   in case two ''012345'' ''0123456789'' s3 of
                        None \<Rightarrow> None
                      | Some (mm, s4) \<Rightarrow>
                          (let (has_seconds, colon2, ss, ds, s5) =
                                 (case re_offset_seconds s4 of
                                    None \<Rightarrow> (False, False, 0, [], s4)
                                  | Some (c2, ss, ds, r) \<Rightarrow> (True, c2, ss, ds, r));
                               magnitude =
                                 (int hh * 3600 + int mm * 60 + int ss) * 1000000
                                 + int (digits_value ds) * 10 ^ (6 - length ds)
                           in if s5 \<noteq> [] then None
                              else if has_seconds \<and> colon1 \<noteq> colon2 then None
                              else Some (if hd s = CHR ''-'' then - magnitude
                                         else magnitude))))))"

definition is_leap :: "nat \<Rightarrow> bool" where
  "is_leap y = (y mod 4 = 0 \<and> (y mod 100 \<noteq> 0 \<or> y mod 400 = 0))"

definition days_in_month :: "nat \<Rightarrow> nat \<Rightarrow> nat" where
  "days_in_month y m =
     (if m = 2 then (if is_leap y then 29 else 28)
      else if m \<in> {4, 6, 9, 11} then 30 else 31)"

text \<open>The fields of the date, of the time, and then the whole format.\<close>

definition re_date :: "string \<Rightarrow> ((nat \<times> nat \<times> nat) \<times> string) option" where
  "re_date s =
     Option.bind (re_Y s) (\<lambda>(Y, s1).
     Option.bind (lit ''-'' s1) (\<lambda>s2.
     Option.bind (re_m s2) (\<lambda>(m, s3).
     Option.bind (lit ''-'' s3) (\<lambda>s4.
     Option.bind (re_d s4) (\<lambda>(d, s5). Some ((Y, m, d), s5))))))"

definition re_time :: "string \<Rightarrow> ((nat \<times> nat \<times> nat) \<times> string) option" where
  "re_time s =
     Option.bind (re_H s) (\<lambda>(H, s1).
     Option.bind (lit '':'' s1) (\<lambda>s2.
     Option.bind (re_M s2) (\<lambda>(M, s3).
     Option.bind (lit '':'' s3) (\<lambda>s4.
     Option.bind (re_S s4) (\<lambda>(S, s5). Some ((H, M, S), s5))))))"

definition re_format :: "string \<Rightarrow> ((nat \<times> nat \<times> nat) \<times> (nat \<times> nat \<times> nat) \<times> int) option" where
  "re_format s =
     Option.bind (re_date s) (\<lambda>(ymd, s1).
     Option.bind (lit ''Tt'' s1) (\<lambda>s2.
     Option.bind (re_time s2) (\<lambda>(hms, s3).
     Option.bind (re_z s3) (\<lambda>off. Some (ymd, hms, off)))))"

definition strptime_iso :: "string \<Rightarrow> error + datetime" where
  "strptime_iso s =
     (case re_format s of
        None \<Rightarrow> Inl ValueError
      | Some ((Y, m, d), (H, M, S), off) \<Rightarrow>
          if Y < 1 \<or> days_in_month Y m < d \<or> 59 < S \<or> 86400000000 \<le> \<bar>off\<bar>
          then Inl ValueError
          else Inr \<lparr>year = Y, month = m, day = d, hour = H, minute = M, second = S,
                    microsecond = 0, utcoffset = off\<rparr>)"

text \<open>\<open>HTMLParser.unify_date_format\<close>.\<close>

definition unify_date_format :: "string \<Rightarrow> error + datetime" where
  "unify_date_format date_str = strptime_iso date_str"

section \<open>Articles, configuration and what a run does to the outside\<close>

text \<open>
  Modelled from the spec: the class \<open>Article\<close> (\<open>core_utils.article.article\<close>) is not part
  of the module. The record has the fields the spec lists for an Article Record; a field
  the scrapper has not assigned is \<open>None\<close>.
\<close>

record article =
  url :: string
  article_id :: int
  text_body :: "string option"
  title :: "string option"
  date :: "datetime option"
  topics :: "string list option"
  author :: "string list option"

definition Article :: "string \<Rightarrow> int \<Rightarrow> article" where
  "Article full_url i =
     \<lparr>url = full_url, article_id = i, text_body = None, title = None, date = None,
      topics = None, author = None\<rparr>"

text \<open>The values \<open>Config\<close> hands out through its getters.\<close>

record config =
  seed_urls :: "string list"
  num_articles :: int
  headers :: "(string \<times> string) list"
  encoding :: string
  timeout :: int
  should_verify_certificate :: bool
  headless_mode :: bool

text \<open>
  A response as the module reads it: the flag \<open>ok\<close> and the tree that
  \<open>BeautifulSoup(response.text, 'html.parser')\<close> builds from its body.
\<close>

record response =
  ok :: bool
  page :: soup

text \<open>
  The site: what the \<open>k\<close>-th request of the run returns for the URL it asks, a response
  or an exception of the HTTP library.
\<close>

type_synonym network = "nat \<Rightarrow> string \<Rightarrow> error + response"

text \<open>The calls of the persistence sinks \<open>to_raw\<close> and \<open>to_meta\<close>.\<close>

datatype sink_call = to_raw article | to_meta article

text \<open>
  What a run does that can be seen from outside: the URLs requested, in order; every
  value \<open>self.urls\<close> has taken after an \<open>append\<close>; the sink calls, in order.
\<close>

record trace =
  requested :: "string list"
  snapshots :: "string list list"
  persisted :: "sink_call list"

definition no_trace :: trace where
  "no_trace = \<lparr>requested = [], snapshots = [], persisted = []\<rparr>"

text \<open>
  \<open>make_request\<close>: the pause before the request changes no result; headers, timeout and
  certificate checking are the site's business.
\<close>

definition make_request ::
  "network \<Rightarrow> string \<Rightarrow> config \<Rightarrow> trace \<Rightarrow> (error + response) \<times> trace" where
  "make_request net u cfg t =
     (net (length (requested t)) u, t\<lparr>requested := requested t @ [u]\<rparr>)"

section \<open>Crawler\<close>

record crawler =
  urls :: "string list"
  url_pattern :: string

text \<open>\<open>Crawler.__init__\<close>: no URL collected yet, the fixed base path.\<close>

definition Crawler :: crawler where
  "Crawler = \<lparr>urls = [], url_pattern = ''https://vse42.ru/articles''\<rparr>"

text \<open>
  The body of the \<open>for link in links\<close> loop of \<open>_extract_url\<close>. \<open>link.get('href')\<close> may be
  \<open>None\<close> or a list, and then \<open>url_pattern + url[len('/articles')::]\<close> raises \<open>TypeError\<close>.
\<close>

fun scan_links :: "crawler \<Rightarrow> node list \<Rightarrow> error + string" where
  "scan_links c [] = Inr []"
| "scan_links c (link # links) =
     (case get link ''href'' of
        Some (AStr href) \<Rightarrow>
          (let url = url_pattern c @ slice_from (length ''/articles'') href
           in if url \<notin> set (urls c) then Inr url else scan_links c links)
      | Some (AList ts) \<Rightarrow> Inl TypeError
      | None \<Rightarrow> Inl TypeError)"

definition extract_url :: "soup \<Rightarrow> crawler \<Rightarrow> error + string" where
  "extract_url article_bs c =
     scan_links c (find_all (Some ''a'') (Some ''card-big'') article_bs)"

text \<open>
  The URLs \<open>_extract_url\<close> can return for a list of links: the rewritten \<open>href\<close> of every
  link that has one.
\<close>

definition candidate_urls :: "crawler \<Rightarrow> node list \<Rightarrow> string list" where
  "candidate_urls c links =
     concat (map (\<lambda>link. case get link ''href'' of
                            Some (AStr href) \<Rightarrow>
                              [url_pattern c @ slice_from (length ''/articles'') href]
                          | Some (AList ts) \<Rightarrow> []
                          | None \<Rightarrow> []) links)"

text \<open>
  The \<open>while extracted_url\<close> loop of \<open>find_articles\<close>; \<open>n\<close> is
  \<open>config.get_num_articles()\<close>. It ends because every URL it appends is one of the finitely
  many candidates of the page and was not in \<open>self.urls\<close> before.
\<close>

function extract_loop ::
  "soup \<Rightarrow> int \<Rightarrow> string \<Rightarrow> crawler \<times> trace \<Rightarrow> error option \<times> crawler \<times> trace" where
  "extract_loop article_bs n extracted_url (c, t) =
     (if extracted_url \<noteq> [] then
        (if int (length (urls c)) = n then (None, c, t)
         else
           (let c1 = c\<lparr>urls := urls c @ [extracted_url]\<rparr>;
                t1 = t\<lparr>snapshots := snapshots t @ [urls c1]\<rparr>
            in case extract_url article_bs c1 of
                 Inl e \<Rightarrow> (Some e, c1, t1)
               | Inr u \<Rightarrow> extract_loop article_bs n u (c1, t1)))
      else (None, c, t))"
  by pat_completeness auto
termination
proof (relation "measure (\<lambda>(bs, n, u, c, t).
          if u = [] then 0
          else Suc (card (set (candidate_urls c (find_all (Some ''a'') (Some ''card-big'') bs))
                          - set (urls c) - {u})))")
  show "wf (measure (\<lambda>(bs, n, u, c, t).
          if u = [] then 0
          else Suc (card (set (candidate_urls c (find_all (Some ''a'') (Some ''card-big'') bs))
                          - set (urls c) - {u}))))"
    by simp
next
  fix article_bs :: soup and n :: int and extracted_url :: string and c :: crawler
    and t :: trace and c1 t1 u
  assume ne: "extracted_url \<noteq> []"
    and c1: "c1 = c\<lparr>urls := urls c @ [extracted_url]\<rparr>"
    and ex: "extract_url article_bs c1 = Inr u"
  have fresh: "v \<noteq> [] \<Longrightarrow> v \<in> set (candidate_urls d links) \<and> v \<notin> set (urls d)"
    if "scan_links d links = Inr v" for d links v
    using that
    by (induction links)
       (auto simp: candidate_urls_def Let_def split: option.splits attr_value.splits if_splits)
  let ?C = "set (candidate_urls c (find_all (Some ''a'') (Some ''card-big'') article_bs))"
  have same: "candidate_urls (d\<lparr>urls := xs\<rparr>) ls = candidate_urls d ls" for d xs ls
    by (simp add: candidate_urls_def cong: option.case_cong attr_value.case_cong)
  show "((article_bs, n, u, c1, t1), (article_bs, n, extracted_url, c, t))
        \<in> measure (\<lambda>(bs, n, u, c, t).
          if u = [] then 0
          else Suc (card (set (candidate_urls c (find_all (Some ''a'') (Some ''card-big'') bs))
                          - set (urls c) - {u})))"
  proof (cases "u = []")
    case True
    then show ?thesis using ne by simp
  next
    case False
    from fresh[OF ex[unfolded extract_url_def] False]
    have u: "u \<in> ?C" "u \<notin> set (urls c)" "u \<noteq> extracted_url"
      by (auto simp: same c1)
    have "card (?C - set (urls c1) - {u}) < card (?C - set (urls c) - {extracted_url})"
    proof (rule psubset_card_mono)
      show "finite (?C - set (urls c) - {extracted_url})" by simp
      show "?C - set (urls c1) - {u} \<subset> ?C - set (urls c) - {extracted_url}"
        using u by (auto simp: c1)
    qed
    then show ?thesis using False ne by (simp add: c1 same)
  qed
qed

declare extract_loop.simps [simp del]

text \<open>
  The \<open>for seed_url in seed_urls\<close> loop: a response that is not \<open>ok\<close> goes on to the next
  seed (\<open>continue\<close>); after the inner loop, the outer one stops when the count is the
  target.
\<close>

fun seeds_loop ::
  "network \<Rightarrow> config \<Rightarrow> string list \<Rightarrow> crawler \<times> trace \<Rightarrow> error option \<times> crawler \<times> trace" where
  "seeds_loop net cfg [] (c, t) = (None, c, t)"
| "seeds_loop net cfg (seed_url # rest) (c, t) =
     (case make_request net seed_url cfg t of
        (Inl e, t1) \<Rightarrow> (Some e, c, t1)
      | (Inr response, t1) \<Rightarrow>
          if \<not> ok response then seeds_loop net cfg rest (c, t1)
          else
            (case extract_url (page response) c of
               Inl e \<Rightarrow> (Some e, c, t1)
             | Inr extracted_url \<Rightarrow>
                 (case extract_loop (page response) (num_articles cfg) extracted_url (c, t1) of
                    (Some e, c2, t2) \<Rightarrow> (Some e, c2, t2)
                  | (None, c2, t2) \<Rightarrow>
                      if int (length (urls c2)) = num_articles cfg then (None, c2, t2)
                      else seeds_loop net cfg rest (c2, t2))))"

definition find_articles ::
  "network \<Rightarrow> config \<Rightarrow> crawler \<times> trace \<Rightarrow> error option \<times> crawler \<times> trace" where
  "find_articles net cfg ct = seeds_loop net cfg (seed_urls cfg) ct"

section \<open>HTMLParser\<close>

text \<open>
  \<open>tag.text\<close>: the strings below the tag that are of the kind \<open>Text\<close>, concatenated in
  document order; the strings of the kind \<open>Hidden\<close> are left out, wherever they stand.
\<close>

fun get_text :: "node \<Rightarrow> string" where
  "get_text (Text s) = s"
| "get_text (Hidden s) = []"
| "get_text (Elem n as cs) = concat (map get_text cs)"

text \<open>
  \<open>tag.string\<close>: defined when the tag has exactly one child, and then the child itself
  when it is a string and the child's \<open>string\<close> when it is a tag.
\<close>

fun string_of :: "node \<Rightarrow> string option" where
  "string_of (Elem n as [Text s]) = Some s"
| "string_of (Elem n as [Hidden s]) = Some s"
| "string_of (Elem n as [Elem m bs ds]) = string_of (Elem m bs ds)"
| "string_of (Elem n as cs) = None"
| "string_of (Text s) = Some s"
| "string_of (Hidden s) = Some s"

text \<open>\<open>str(x)\<close> for what \<open>tag.string\<close> and \<open>tag.get\<close> return.\<close>

definition str_of_string :: "string option \<Rightarrow> string" where
  "str_of_string x = (case x of None \<Rightarrow> ''None'' | Some s \<Rightarrow> s)"

text \<open>
  The text of a list begins with a bracket, each token in quotes (tokens written as
  they are).
\<close>

definition str_of_attr :: "attr_value option \<Rightarrow> string" where
  "str_of_attr x =
     (case x of
        None \<Rightarrow> ''None''
      | Some (AStr s) \<Rightarrow> s
      | Some (AList ts) \<Rightarrow>
          ''['' @ join '', '' (map (\<lambda>t. [CHR 0x27] @ t @ [CHR 0x27]) ts) @ '']'')"

text \<open>
  \<open>for clas in soup.find_all(class_=c): clas.decompose()\<close>: every tag of the class leaves
  the tree, with everything below it.
\<close>

fun decompose_class :: "string \<Rightarrow> node \<Rightarrow> node list" where
  "decompose_class c (Elem n as cs) =
     (if class_matches (map_of as ''class'') c then []
      else [Elem n as (concat (map (decompose_class c) cs))])"
| "decompose_class c (Text s) = [Text s]"
| "decompose_class c (Hidden s) = [Hidden s]"

definition decompose_all :: "string \<Rightarrow> soup \<Rightarrow> soup" where
  "decompose_all c bs = concat (map (decompose_class c) bs)"

definition nbsp :: char where
  "nbsp = CHR 0xA0"

definition newline :: string where
  "newline = [CHR 0x0A]"

text \<open>\<open>s.replace(old, new)\<close> for single characters.\<close>

definition replace :: "char \<Rightarrow> char \<Rightarrow> string \<Rightarrow> string" where
  "replace old new s = map (\<lambda>ch. if ch = old then new else ch) s"

text \<open>
  \<open>_fill_article_with_text\<close>. The page is changed in place by \<open>decompose\<close>, so the tree that
  is left is returned with the article.
\<close>

definition fill_article_with_text :: "soup \<Rightarrow> article \<Rightarrow> soup \<times> article" where
  "fill_article_with_text article_soup a =
     (let soup1 = decompose_all ''footer'' article_soup;
          soup2 = decompose_all ''lead'' soup1;
          text_blocks = slice_to_neg 5 (find_all (Some ''p'') None soup2);
          raw_text = filter (\<lambda>s. s \<noteq> []) (map get_text text_blocks);
          full_text = join newline raw_text;
          clean_text = replace nbsp CHR '' '' full_text
      in (soup2, a\<lparr>text_body := Some clean_text\<rparr>))"

definition topics_class :: string where
  "topics_class =
     ''news-obj-wide__info news-obj-wide__rubric news-obj-wide__info_left '' @
     ''news-obj-wide__info-link waves-effect''"

text \<open>
  \<open>_fill_article_with_meta_information\<close>. \<open>find('h1')\<close> may be \<open>None\<close>, and then \<open>.string\<close>
  raises \<open>AttributeError\<close>; \<open>unify_date_format\<close> may raise \<open>ValueError\<close>.
\<close>

definition fill_article_with_meta_information :: "soup \<Rightarrow> article \<Rightarrow> error + article" where
  "fill_article_with_meta_information article_soup a =
     (let a1 = a\<lparr>author := Some [''NOT FOUND'']\<rparr>
      in case find_first ''h1'' article_soup of
           None \<Rightarrow> Inl AttributeError
         | Some h1 \<Rightarrow>
             (let a2 = a1\<lparr>title := Some (strip (str_of_string (string_of h1)))\<rparr>
              in case (case find_first ''time'' article_soup of
                         Some date_tag \<Rightarrow>
                           unify_date_format (str_of_attr (get date_tag ''datetime''))
                       | None \<Rightarrow> unify_date_format ''2024-01-01'') of
                   Inl e \<Rightarrow> Inl e
                 | Inr d \<Rightarrow>
                     Inr (a2\<lparr>date := Some d,
                              topics :=
                                Some (map (\<lambda>topic. strip (get_text topic))
                                        (find_all None (Some topics_class) article_soup))\<rparr>)))"

text \<open>
  \<open>HTMLParser.parse\<close>, with \<open>HTMLParser.__init__\<close> before it. Whatever the response, what is
  returned is \<open>self.article\<close>.
\<close>

definition parse ::
  "network \<Rightarrow> config \<Rightarrow> string \<Rightarrow> int \<Rightarrow> trace \<Rightarrow> (error + article) \<times> trace" where
  "parse net cfg full_url i t =
     (let a = Article full_url i
      in case make_request net full_url cfg t of
           (Inl e, t1) \<Rightarrow> (Inl e, t1)
         | (Inr response, t1) \<Rightarrow>
             if ok response then
               (case fill_article_with_text (page response) a of
                  (soup1, a1) \<Rightarrow>
                    (case fill_article_with_meta_information soup1 a1 of
                       Inl e \<Rightarrow> (Inl e, t1)
                     | Inr a2 \<Rightarrow> (Inr a2, t1)))
             else (Inr a, t1))"

section \<open>The entry point\<close>

text \<open>\<open>enumerate(xs, k)\<close>.\<close>

fun enumerate_from :: "int \<Rightarrow> 'a list \<Rightarrow> (int \<times> 'a) list" where
  "enumerate_from k [] = []"
| "enumerate_from k (x # xs) = (k, x) # enumerate_from (k + 1) xs"

text \<open>
  The loop of \<open>main\<close> over the collected URLs. No exception is caught, so the first one
  ends the loop and the run. \<open>parse\<close> returns an \<open>Article\<close> whenever it returns, so the test
  \<open>isinstance(article, Article)\<close> holds and both sinks are called.
\<close>

fun articles_loop ::
  "network \<Rightarrow> config \<Rightarrow> (int \<times> string) list \<Rightarrow> trace \<Rightarrow> error option \<times> trace" where
  "articles_loop net cfg [] t = (None, t)"
| "articles_loop net cfg ((i, full_url) # rest) t =
     (case parse net cfg full_url i t of
        (Inl e, t1) \<Rightarrow> (Some e, t1)
      | (Inr a, t1) \<Rightarrow>
          articles_loop net cfg rest
            (t1\<lparr>persisted := persisted t1 @ [to_raw a, to_meta a]\<rparr>))"

text \<open>
  \<open>main\<close> once the configuration is read and the output directory is ready: collect, then
  parse and store each URL under its position, counted from 1.
\<close>

definition main :: "network \<Rightarrow> config \<Rightarrow> error option \<times> crawler \<times> trace" where
  "main net cfg =
     (case find_articles net cfg (Crawler, no_trace) of
        (Some e, c, t) \<Rightarrow> (Some e, c, t)
      | (None, c, t) \<Rightarrow>
          (case articles_loop net cfg (enumerate_from 1 (urls c)) t of
             (r, t1) \<Rightarrow> (r, c, t1)))"

section \<open>Config\<close>

text \<open>
  What \<open>json.load\<close> returns. A number that is not an integer is kept as its literal; only
  its type is ever looked at.
\<close>

datatype json =
    JNull | JBool bool | JInt int | JFloat string | JStr string
  | JList "json list" | JDict "(string \<times> json) list"

text \<open>\<open>config[key]\<close>.\<close>

fun subscript :: "json \<Rightarrow> string \<Rightarrow> error + json" where
  "subscript (JDict kvs) k = (case map_of kvs k of None \<Rightarrow> Inl KeyError | Some v \<Rightarrow> Inr v)"
| "subscript v k = Inl TypeError"

text \<open>
  \<open>isinstance(v, int)\<close> holds for the integers and, \<open>bool\<close> being a subclass of \<open>int\<close>, for
  \<open>True\<close> and \<open>False\<close>, which compare as 1 and 0.
\<close>

fun isinstance_int :: "json \<Rightarrow> bool" where
  "isinstance_int (JInt i) = True"
| "isinstance_int (JBool b) = True"
| "isinstance_int v = False"

fun int_value :: "json \<Rightarrow> int" where
  "int_value (JInt i) = i"
| "int_value (JBool b) = (if b then 1 else 0)"
| "int_value v = 0"

fun isinstance_bool :: "json \<Rightarrow> bool" where
  "isinstance_bool (JBool b) = True"
| "isinstance_bool v = False"

fun isinstance_list :: "json \<Rightarrow> bool" where
  "isinstance_list (JList xs) = True"
| "isinstance_list v = False"

fun isinstance_dict :: "json \<Rightarrow> bool" where
  "isinstance_dict (JDict kvs) = True"
| "isinstance_dict v = False"

fun isinstance_str :: "json \<Rightarrow> bool" where
  "isinstance_str (JStr s) = True"
| "isinstance_str v = False"

text \<open>
  \<open>all(re.match(r'https?://(www.)?', seed_url) for seed_url in seeds)\<close>: the pattern
  matches the strings that begin with \<open>http://\<close> or \<open>https://\<close>; \<open>re.match\<close> raises
  \<open>TypeError\<close> on what is not a string; \<open>all\<close> stops at the first URL that does not match.
\<close>

fun all_match :: "json list \<Rightarrow> error + bool" where
  "all_match [] = Inr True"
| "all_match (JStr s # rest) =
     (if prefix ''http://'' s \<or> prefix ''https://'' s then all_match rest else Inr False)"
| "all_match (v # rest) = Inl TypeError"

text \<open>The checks of \<open>_validate_config_content\<close>, one per \<open>if\<close>, in the order of the source;
  \<open>None\<close> when the check raises nothing.\<close>

definition check_seed_urls_list :: "json \<Rightarrow> error option" where
  "check_seed_urls_list config =
     (case subscript config ''seed_urls'' of
        Inl e \<Rightarrow> Some e
      | Inr seeds \<Rightarrow> if \<not> isinstance_list seeds then Some IncorrectSeedURLError else None)"

definition check_seed_urls_pattern :: "json \<Rightarrow> error option" where
  "check_seed_urls_pattern config =
     (case subscript config ''seed_urls'' of
        Inl e \<Rightarrow> Some e
      | Inr (JList seeds) \<Rightarrow>
          (case all_match seeds of
             Inl e \<Rightarrow> Some e
           | Inr b \<Rightarrow> if \<not> b then Some IncorrectSeedURLError else None)
      | Inr v \<Rightarrow> Some IncorrectSeedURLError)"

definition check_total_articles_type :: "json \<Rightarrow> error option" where
  "check_total_articles_type config =
     (case subscript config ''total_articles_to_find_and_parse'' of
        Inl e \<Rightarrow> Some e
      | Inr v \<Rightarrow>
          if \<not> isinstance_int v \<or> int_value v \<le> 0
          then Some IncorrectNumberOfArticlesError else None)"

definition check_total_articles_range :: "json \<Rightarrow> error option" where
  "check_total_articles_range config =
     (case subscript config ''total_articles_to_find_and_parse'' of
        Inl e \<Rightarrow> Some e
      | Inr v \<Rightarrow>
          if \<not> (0 < int_value v \<and> int_value v \<le> 150)
          then Some NumberOfArticlesOutOfRangeError else None)"

definition check_headers :: "json \<Rightarrow> error option" where
  "check_headers config =
     (case subscript config ''headers'' of
        Inl e \<Rightarrow> Some e
      | Inr v \<Rightarrow> if \<not> isinstance_dict v then Some IncorrectHeadersError else None)"

definition check_encoding :: "json \<Rightarrow> error option" where
  "check_encoding config =
     (case subscript config ''encoding'' of
        Inl e \<Rightarrow> Some e
      | Inr v \<Rightarrow> if \<not> isinstance_str v then Some IncorrectEncodingError else None)"

definition check_timeout :: "json \<Rightarrow> error option" where
  "check_timeout config =
     (case subscript config ''timeout'' of
        Inl e \<Rightarrow> Some e
      | Inr v \<Rightarrow>
          if \<not> isinstance_int v \<or> \<not> (0 < int_value v \<and> int_value v < 60)
          then Some IncorrectTimeoutError else None)"

definition check_verify :: "json \<Rightarrow> error option" where
  "check_verify config =
     (case subscript config ''should_verify_certificate'' of
        Inl e \<Rightarrow> Some e
      | Inr v \<Rightarrow>
          if \<not> isinstance_bool v then Some IncorrectVerifyError
          else
            (case subscript config ''headless_mode'' of
               Inl e \<Rightarrow> Some e
             | Inr w \<Rightarrow> if \<not> isinstance_bool w then Some IncorrectVerifyError else None))"

text \<open>
  \<open>Config._validate_config_content\<close> on the loaded configuration: the exception of the
  first check that raises, \<open>None\<close> when it returns. The range check is reached only with
  a value that passed the type check, so it compares integers.
\<close>

fun first_raised :: "error option list \<Rightarrow> error option" where
  "first_raised [] = None"
| "first_raised (Some e # checks) = Some e"
| "first_raised (None # checks) = first_raised checks"

definition validate_config_content :: "json \<Rightarrow> error option" where
  "validate_config_content config =
     first_raised
       [check_seed_urls_list config, check_seed_urls_pattern config,
        check_total_articles_type config, check_total_articles_range config,
        check_headers config, check_encoding config, check_timeout config,
        check_verify config]"

section \<open>Example pages\<close>

definition card :: "string \<Rightarrow> node" where
  "card href = Elem ''a'' [(''class'', AList [''card-big'']), (''href'', AStr href)] []"

definition para :: "string \<Rightarrow> node" where
  "para s = Elem ''p'' [] [Text s]"

text \<open>Seven paragraphs with text, the first with a non-breaking space in it.\<close>

definition seven_paragraphs :: soup where
  "seven_paragraphs =
     [Elem ''div'' []
        [para [CHR ''a'', nbsp, CHR ''b''], para ''c'', para ''d'', para ''e'', para ''f'',
         para ''g'', para ''h'']]"

text \<open>Two card links in a listing page, with text between them.\<close>

definition two_cards :: soup where
  "two_cards = [Elem ''div'' [] [card ''/articles/1'', Text ''x'', card ''/articles/2'']]"

text \<open>A configuration that is in order, apart from the number of articles.\<close>

definition config_with_total :: "json \<Rightarrow> json" where
  "config_with_total v =
     JDict [(''seed_urls'', JList [JStr ''https://vse42.ru/news'']),
            (''total_articles_to_find_and_parse'', v),
            (''headers'', JDict []), (''encoding'', JStr ''utf-8''),
            (''timeout'', JInt 5), (''should_verify_certificate'', JBool True),
            (''headless_mode'', JBool False)]"

text \<open>A configuration that is in order, apart from the two boolean flags.\<close>

definition config_with_flags :: "json \<Rightarrow> json \<Rightarrow> json" where
  "config_with_flags v h =
     JDict [(''seed_urls'', JList [JStr ''https://vse42.ru/news'']),
            (''total_articles_to_find_and_parse'', JInt 10),
            (''headers'', JDict []), (''encoding'', JStr ''utf-8''),
            (''timeout'', JInt 5), (''should_verify_certificate'', v),
            (''headless_mode'', h)]"

text \<open>
  A paragraph with a script in it, as the parser builds it, and a page of seven
  paragraphs that begins with it.
\<close>

definition script_paragraph :: node where
  "script_paragraph = Elem ''p'' [] [Text ''a'', Elem ''script'' [] [Hidden ''x''], Text ''b'']"

definition seven_with_script :: soup where
  "seven_with_script =
     [script_paragraph, para ''2'', para ''3'', para ''4'', para ''5'', para ''6'', para ''7'']"

text \<open>
  A site with one listing page, the two cards, and a response for each of the two
  article pages; a configuration that asks for two articles from that listing page.
\<close>

definition example_site :: "response \<Rightarrow> response \<Rightarrow> network" where
  "example_site r1 r2 k u =
     (if u = ''https://vse42.ru/news'' then Inr \<lparr>ok = True, page = two_cards\<rparr>
      else if u = ''https://vse42.ru/articles/1'' then Inr r1 else Inr r2)"

definition example_config :: config where
  "example_config =
     \<lparr>seed_urls = [''https://vse42.ru/news''], num_articles = 2, headers = [],
      encoding = ''utf-8'', timeout = 5, should_verify_certificate = True,
      headless_mode = False\<rparr>"

text \<open>Article pages: one with a heading and a date, one without a date, one without a
  heading.\<close>

definition good_article :: soup where
  "good_article =
     [Elem ''body'' []
        [Elem ''h1'' [] [Text '' Title ''],
         Elem ''time'' [(''datetime'', AStr ''2023-05-10T12:00:00+0300'')] [],
         para ''body text'']]"

definition no_time_article :: soup where
  "no_time_article = [Elem ''body'' [] [Elem ''h1'' [] [Text ''Title''], para ''body text'']]"

definition no_h1_article :: soup where
  "no_h1_article =
     [Elem ''body'' []
        [Elem ''time'' [(''datetime'', AStr ''2023-05-10T12:00:00+0300'')] [],
         para ''body text'']]"

definition good_response :: response where
  "good_response = \<lparr>ok = True, page = good_article\<rparr>"

text \<open>What \<open>parse\<close> makes of the page \<open>good_article\<close>.\<close>

definition parsed_good :: "string \<Rightarrow> int \<Rightarrow> article" where
  "parsed_good u i =
     \<lparr>url = u, article_id = i, text_body = Some [], title = Some ''Title'',
      date = Some \<lparr>year = 2023, month = 5, day = 10, hour = 12, minute = 0, second = 0,
                   microsecond = 0, utcoffset = 10800000000\<rparr>,
      topics = Some [], author = Some [''NOT FOUND'']\<rparr>"

section \<open>Notions the statements use\<close>

text \<open>The article a sink call stores, and the identifier and URL it stores it under.\<close>

fun sink_article :: "sink_call \<Rightarrow> article" where
  "sink_article (to_raw a) = a"
| "sink_article (to_meta a) = a"

definition sink_key :: "sink_call \<Rightarrow> int \<times> string" where
  "sink_key s = (article_id (sink_article s), url (sink_article s))"

text \<open>
  A link the scan passes over: its \<open>href\<close> is a string and the URL formed from it is
  already in \<open>self.urls\<close>.
\<close>

definition already_collected :: "crawler \<Rightarrow> node \<Rightarrow> bool" where
  "already_collected c link =
     (case get link ''href'' of
        Some (AStr href) \<Rightarrow> url_pattern c @ drop 9 href \<in> set (urls c)
      | Some (AList ts) \<Rightarrow> False
      | None \<Rightarrow> False)"

section \<open>Slices and the link scan\<close>

lemma slice_to_neg_short: "length xs \<le> k \<Longrightarrow> slice_to_neg k xs = []"
  by (simp add: slice_to_neg_def)

lemma slice_to_neg_take: "slice_to_neg k xs = take (length xs - k) xs"
  by (simp add: slice_to_neg_def nat_diff_distrib' max_def)

lemma scan_links_href:
  "get link ''href'' = Some (AStr href) \<Longrightarrow>
   scan_links c (link # links) =
     (if url_pattern c @ drop 9 href \<notin> set (urls c)
      then Inr (url_pattern c @ drop 9 href) else scan_links c links)"
  by (simp add: slice_from_def Let_def eval_nat_numeral)

lemma scan_links_no_href:
  "(\<And>href. get link ''href'' \<noteq> Some (AStr href)) \<Longrightarrow>
   scan_links c (link # links) = Inl TypeError"
  by (auto split: option.splits attr_value.splits)

lemma scan_links_dropWhile:
  "scan_links c links =
     (case dropWhile (already_collected c) links of
        [] \<Rightarrow> Inr []
      | link # rest \<Rightarrow>
          (case get link ''href'' of
             Some (AStr href) \<Rightarrow> Inr (url_pattern c @ drop 9 href)
           | Some (AList ts) \<Rightarrow> Inl TypeError
           | None \<Rightarrow> Inl TypeError))"
proof (induction links)
  case Nil
  show ?case by simp
next
  case (Cons link links)
  show ?case
  proof (cases "\<exists>href. get link ''href'' = Some (AStr href)")
    case True
    then obtain href where h: "get link ''href'' = Some (AStr href)" by blast
    show ?thesis
      using Cons.IH h scan_links_href [OF h, of c links]
      by (simp add: already_collected_def del: scan_links.simps)
  next
    case False
    then have n: "\<And>href. get link ''href'' \<noteq> Some (AStr href)" by blast
    have "\<not> already_collected c link"
      using n by (auto simp: already_collected_def split: option.splits attr_value.splits)
    then show ?thesis
      using scan_links_no_href [OF n, of c links] n
      by (auto simp del: scan_links.simps split: option.splits attr_value.splits)
  qed
qed

lemma scan_links_all_strings:
  assumes "\<forall>link \<in> set links. \<exists>href. get link ''href'' = Some (AStr href)"
  shows "scan_links c links =
           Inr (case filter (\<lambda>u. u \<notin> set (urls c)) (candidate_urls c links) of
                  [] \<Rightarrow> [] | u # us \<Rightarrow> u)"
  using assms
proof (induction links)
  case Nil
  show ?case by (simp add: candidate_urls_def)
next
  case (Cons link links)
  then obtain href where h: "get link ''href'' = Some (AStr href)" by auto
  have c: "candidate_urls c (link # links) = (url_pattern c @ drop 9 href) # candidate_urls c links"
    using h by (simp add: candidate_urls_def slice_from_def eval_nat_numeral)
  show ?case
    using Cons scan_links_href [OF h, of c links]
    by (simp add: c del: scan_links.simps)
qed

lemma links_of_two_cards:
  "find_all (Some ''a'') (Some ''card-big'') two_cards = [card ''/articles/1'', card ''/articles/2'']"
  by (simp add: two_cards_def card_def find_all_def descendants_def matches_def)

section \<open>The rewrite of a link\<close>

text \<open>
  Claim C10. For a card link whose \<open>href\<close> is a string, the URL the extractor forms is the
  base path \<open>https://vse42.ru/articles\<close> followed by the \<open>href\<close> without its first nine
  characters, whatever those characters are; it is the URL returned unless it is already
  collected. An \<open>href\<close> of fewer than nine characters gives the bare base path.
\<close>

theorem rewrite_replaces_first_nine:
  assumes "get link ''href'' = Some (AStr href)"
    and "url_pattern c = url_pattern Crawler"
  shows "scan_links c (link # links) =
           (if ''https://vse42.ru/articles'' @ drop 9 href \<notin> set (urls c)
            then Inr (''https://vse42.ru/articles'' @ drop 9 href)
            else scan_links c links)
         \<and> (length href < 9 \<longrightarrow>
              ''https://vse42.ru/articles'' @ drop 9 href = ''https://vse42.ru/articles'')"
  using assms scan_links_href [of link href c links]
  by (simp add: Crawler_def del: scan_links.simps)

theorem rewrite_replaces_first_nine_witness:
  "scan_links Crawler
     [Elem ''a'' [(''class'', AList [''card-big'']), (''href'', AStr ''/news/2024/abc'')] []]
     = Inr ''https://vse42.ru/articles4/abc''
   \<and> scan_links Crawler [Elem ''a'' [(''href'', AStr ''/art'')] []]
     = Inr ''https://vse42.ru/articles''"
  using rewrite_replaces_first_nine
          [of "Elem ''a'' [(''class'', AList [''card-big'']),
                           (''href'', AStr ''/news/2024/abc'')] []"
              "''/news/2024/abc''" Crawler "[]"]
        rewrite_replaces_first_nine
          [of "Elem ''a'' [(''href'', AStr ''/art'')] []" "''/art''" Crawler "[]"]
  by (simp add: Crawler_def del: scan_links.simps)

section \<open>Text assembly\<close>

lemma take_two_of_seven:
  assumes "length xs = 7"
  shows "take 2 xs = [xs ! 0, xs ! 1]"
proof -
  from assms obtain a b r where "xs = a # b # r"
    by (cases xs; cases "tl xs") auto
  then show ?thesis by simp
qed

lemma paragraphs_of_seven:
  "find_all (Some ''p'') None
     (decompose_all ''lead'' (decompose_all ''footer'' seven_paragraphs)) =
   [para [CHR ''a'', nbsp, CHR ''b''], para ''c'', para ''d'', para ''e'', para ''f'',
    para ''g'', para ''h'']"
  by (simp add: seven_paragraphs_def para_def decompose_all_def find_all_def
        descendants_def matches_def)

lemma paragraphs_with_script:
  "find_all (Some ''p'') None
     (decompose_all ''lead'' (decompose_all ''footer'' seven_with_script)) =
   [script_paragraph, para ''2'', para ''3'', para ''4'', para ''5'', para ''6'', para ''7'']"
  by (simp add: seven_with_script_def script_paragraph_def para_def decompose_all_def
        find_all_def descendants_def matches_def)

lemma text_of_script_paragraph: "get_text script_paragraph = ''ab''"
  by (simp add: script_paragraph_def)

lemma text_of_seven:
  "text_body (snd (fill_article_with_text seven_paragraphs a)) = Some (''a b'' @ newline @ ''c'')"
  by (simp add: fill_article_with_text_def paragraphs_of_seven Let_def slice_to_neg_take
        para_def replace_def nbsp_def newline_def)

text \<open>
  Claim C9. When the page, after the footer and lead tags are removed, has at most five
  paragraph tags, the text of the article is the empty string.
\<close>

theorem short_article_has_empty_text:
  assumes "length (find_all (Some ''p'') None
                    (decompose_all ''lead'' (decompose_all ''footer'' article_soup))) \<le> 5"
  shows "text_body (snd (fill_article_with_text article_soup a)) = Some []"
  using assms
  by (simp add: fill_article_with_text_def Let_def slice_to_neg_short replace_def)

theorem short_article_has_empty_text_witness:
  "text_body (snd (fill_article_with_text
                     [para ''one'', para ''two'', Elem ''p'' [(''class'', AList [''lead''])] []]
                     (Article ''u'' 1))) = Some []"
proof -
  have "length (find_all (Some ''p'') None
                  (decompose_all ''lead'' (decompose_all ''footer''
                     [para ''one'', para ''two'',
                      Elem ''p'' [(''class'', AList [''lead''])] []]))) \<le> 5"
    by (simp add: para_def decompose_all_def find_all_def descendants_def matches_def)
  then show ?thesis by (rule short_article_has_empty_text)
qed

text \<open>
  Claim C6, as the code has it. With exactly five paragraph tags left after the footer
  and lead tags are removed, the text is the empty string. With exactly seven, all of
  them with text, the text is the first two paragraphs' texts joined by a newline, in
  which every non-breaking space has become an ordinary space. The text of a paragraph
  is what \<open>tag.text\<close> gives: the strings below it, without those of the kind \<open>Hidden\<close>
  (comments, and what stands inside \<open>script\<close>, \<open>style\<close> or \<open>template\<close> tags).
\<close>

theorem trailing_paragraphs_dropped:
  fixes article_soup a
  defines "ps \<equiv> find_all (Some ''p'') None
                    (decompose_all ''lead'' (decompose_all ''footer'' article_soup))"
  shows "(length ps = 5 \<longrightarrow>
            text_body (snd (fill_article_with_text article_soup a)) = Some [])
         \<and> (length ps = 7 \<and> (\<forall>p \<in> set ps. get_text p \<noteq> []) \<longrightarrow>
            text_body (snd (fill_article_with_text article_soup a)) =
              Some (replace nbsp CHR '' ''
                      (get_text (ps ! 0) @ newline @ get_text (ps ! 1))))"
proof (intro conjI impI)
  assume "length ps = 5"
  then show "text_body (snd (fill_article_with_text article_soup a)) = Some []"
    by (simp add: ps_def fill_article_with_text_def Let_def slice_to_neg_short replace_def)
next
  assume h: "length ps = 7 \<and> (\<forall>p \<in> set ps. get_text p \<noteq> [])"
  then have t: "slice_to_neg 5 ps = [ps ! 0, ps ! 1]"
    by (simp add: slice_to_neg_take take_two_of_seven)
  from h have "ps ! 0 \<in> set ps" "ps ! 1 \<in> set ps" by simp_all
  with h have ne: "get_text (ps ! 0) \<noteq> []" "get_text (ps ! 1) \<noteq> []" by blast+
  show "text_body (snd (fill_article_with_text article_soup a)) =
          Some (replace nbsp CHR '' '' (get_text (ps ! 0) @ newline @ get_text (ps ! 1)))"
    using t ne unfolding ps_def
    by (simp add: fill_article_with_text_def Let_def)
qed

theorem trailing_paragraphs_dropped_witness:
  "text_body (snd (fill_article_with_text seven_paragraphs (Article ''u'' 1))) =
     Some (replace nbsp CHR '' '' ([CHR ''a'', nbsp, CHR ''b''] @ newline @ ''c''))
   \<and> text_body (snd (fill_article_with_text seven_with_script (Article ''u'' 1))) =
     Some (''ab'' @ newline @ ''2'')
   \<and> text_body (snd (fill_article_with_text
                       [para ''1'', para ''2'', para ''3'', para ''4'', para ''5'']
                       (Article ''u'' 1))) = Some []"
proof -
  have five: "length (find_all (Some ''p'') None
                  (decompose_all ''lead'' (decompose_all ''footer''
                     [para ''1'', para ''2'', para ''3'', para ''4'', para ''5'']))) = 5"
    by (simp add: para_def decompose_all_def find_all_def descendants_def matches_def)
  have seven: "length (find_all (Some ''p'') None
                  (decompose_all ''lead'' (decompose_all ''footer'' seven_paragraphs))) = 7
               \<and> (\<forall>p \<in> set (find_all (Some ''p'') None
                  (decompose_all ''lead'' (decompose_all ''footer'' seven_paragraphs))).
                     get_text p \<noteq> [])"
    by (simp add: paragraphs_of_seven para_def)
  have script: "length (find_all (Some ''p'') None
                  (decompose_all ''lead'' (decompose_all ''footer'' seven_with_script))) = 7
               \<and> (\<forall>p \<in> set (find_all (Some ''p'') None
                  (decompose_all ''lead'' (decompose_all ''footer'' seven_with_script))).
                     get_text p \<noteq> [])"
    by (simp add: paragraphs_with_script text_of_script_paragraph para_def)
  from trailing_paragraphs_dropped [of seven_paragraphs "Article ''u'' 1"] seven
  have "text_body (snd (fill_article_with_text seven_paragraphs (Article ''u'' 1))) =
     Some (replace nbsp CHR '' ''
        (get_text (find_all (Some ''p'') None
            (decompose_all ''lead'' (decompose_all ''footer'' seven_paragraphs)) ! 0)
         @ newline @
         get_text (find_all (Some ''p'') None
            (decompose_all ''lead'' (decompose_all ''footer'' seven_paragraphs)) ! 1)))"
    by blast
  moreover from trailing_paragraphs_dropped [of seven_with_script "Article ''u'' 1"] script
  have "text_body (snd (fill_article_with_text seven_with_script (Article ''u'' 1))) =
     Some (replace nbsp CHR '' ''
        (get_text (find_all (Some ''p'') None
            (decompose_all ''lead'' (decompose_all ''footer'' seven_with_script)) ! 0)
         @ newline @
         get_text (find_all (Some ''p'') None
            (decompose_all ''lead'' (decompose_all ''footer'' seven_with_script)) ! 1)))"
    by blast
  moreover from trailing_paragraphs_dropped
      [of "[para ''1'', para ''2'', para ''3'', para ''4'', para ''5'']" "Article ''u'' 1"] five
  have "text_body (snd (fill_article_with_text
                       [para ''1'', para ''2'', para ''3'', para ''4'', para ''5'']
                       (Article ''u'' 1))) = Some []"
    by blast
  ultimately show ?thesis
    by (simp add: paragraphs_of_seven paragraphs_with_script text_of_script_paragraph
          para_def replace_def nbsp_def newline_def)
qed

text \<open>
  The page \<open>seven_paragraphs\<close> has seven paragraphs with text, and its text is not the
  first two paragraphs' texts joined by a newline: the first has a non-breaking space.
\<close>

theorem text_not_plain_join_counterexample:
  "length (find_all (Some ''p'') None
             (decompose_all ''lead'' (decompose_all ''footer'' seven_paragraphs))) = 7
   \<and> text_body (snd (fill_article_with_text seven_paragraphs (Article ''u'' 1)))
       \<noteq> Some (get_text (para [CHR ''a'', nbsp, CHR ''b'']) @ newline @ get_text (para ''c''))"
  by (simp add: paragraphs_of_seven text_of_seven para_def nbsp_def)

section \<open>The listing extractor\<close>

text \<open>
  Claim C7, as the code has it. \<open>_extract_url\<close> goes through the card links of the page in
  document order and passes over each link whose \<open>href\<close> is a string and whose rewritten
  URL is already collected. At the first link it does not pass over it returns the
  rewritten URL when the \<open>href\<close> is a string and raises \<open>TypeError\<close> when the link has no
  string \<open>href\<close>; with no such link it returns the empty string. So on a page whose card
  links all have a string \<open>href\<close> the result is the first rewritten URL that is not
  collected, or the empty string. The result depends on the page and on the collected
  URLs only.
\<close>

theorem extract_url_first_fresh:
  fixes article_bs c
  defines "links \<equiv> find_all (Some ''a'') (Some ''card-big'') article_bs"
  shows "extract_url article_bs c =
           (case dropWhile (already_collected c) links of
              [] \<Rightarrow> Inr []
            | link # rest \<Rightarrow>
                (case get link ''href'' of
                   Some (AStr href) \<Rightarrow> Inr (url_pattern c @ drop 9 href)
                 | Some (AList ts) \<Rightarrow> Inl TypeError
                 | None \<Rightarrow> Inl TypeError))
         \<and> ((\<forall>link \<in> set links. \<exists>href. get link ''href'' = Some (AStr href)) \<longrightarrow>
              extract_url article_bs c =
                Inr (case filter (\<lambda>u. u \<notin> set (urls c)) (candidate_urls c links) of
                       [] \<Rightarrow> [] | u # us \<Rightarrow> u))
         \<and> (\<forall>c'. urls c' = urls c \<and> url_pattern c' = url_pattern c \<longrightarrow>
              extract_url article_bs c' = extract_url article_bs c)"
proof (intro conjI allI impI)
  show "extract_url article_bs c =
           (case dropWhile (already_collected c) links of
              [] \<Rightarrow> Inr []
            | link # rest \<Rightarrow>
                (case get link ''href'' of
                   Some (AStr href) \<Rightarrow> Inr (url_pattern c @ drop 9 href)
                 | Some (AList ts) \<Rightarrow> Inl TypeError
                 | None \<Rightarrow> Inl TypeError))"
    unfolding extract_url_def links_def by (rule scan_links_dropWhile)
next
  assume "\<forall>link \<in> set links. \<exists>href. get link ''href'' = Some (AStr href)"
  then show "extract_url article_bs c =
                Inr (case filter (\<lambda>u. u \<notin> set (urls c)) (candidate_urls c links) of
                       [] \<Rightarrow> [] | u # us \<Rightarrow> u)"
    unfolding extract_url_def links_def by (rule scan_links_all_strings)
next
  fix c' :: crawler
  assume "urls c' = urls c \<and> url_pattern c' = url_pattern c"
  then have "c' = c" by simp
  then show "extract_url article_bs c' = extract_url article_bs c" by simp
qed

theorem extract_url_first_fresh_witness:
  "extract_url two_cards (Crawler\<lparr>urls := [''https://vse42.ru/articles/1'']\<rparr>) =
     Inr ''https://vse42.ru/articles/2''
   \<and> extract_url two_cards
       (Crawler\<lparr>urls := [''https://vse42.ru/articles/1'', ''https://vse42.ru/articles/2'']\<rparr>) =
     Inr []"
proof -
  have s: "\<forall>link \<in> set (find_all (Some ''a'') (Some ''card-big'') two_cards).
             \<exists>href. get link ''href'' = Some (AStr href)"
    by (simp add: links_of_two_cards card_def)
  have c: "candidate_urls d [card ''/articles/1'', card ''/articles/2''] =
             [url_pattern d @ ''/1'', url_pattern d @ ''/2'']" for d
    by (simp add: candidate_urls_def card_def slice_from_def)
  have "extract_url two_cards d =
          Inr (case filter (\<lambda>u. u \<notin> set (urls d))
                      (candidate_urls d (find_all (Some ''a'') (Some ''card-big'') two_cards)) of
                 [] \<Rightarrow> [] | u # us \<Rightarrow> u)" for d
    using extract_url_first_fresh [of two_cards d] s by blast
  then show ?thesis
    by (simp add: links_of_two_cards c Crawler_def)
qed

text \<open>A page whose only card link has no \<open>href\<close>: the extractor raises, and returns
  neither a URL nor the empty string.\<close>

theorem card_without_href_counterexample:
  "extract_url [Elem ''a'' [(''class'', AList [''card-big''])] []] Crawler = Inl TypeError
   \<and> \<not> (\<exists>u. extract_url [Elem ''a'' [(''class'', AList [''card-big''])] []] Crawler = Inr u)"
  by (simp add: extract_url_def find_all_def descendants_def matches_def)

section \<open>Validation of the configuration\<close>

lemma seed_checks:
  assumes "subscript config ''seed_urls'' = Inr s"
  shows "(\<not> isinstance_list s \<longrightarrow> check_seed_urls_list config = Some IncorrectSeedURLError)
       \<and> (\<forall>xs. s = JList xs \<longrightarrow> check_seed_urls_list config = None
              \<and> (all_match xs = Inr False \<longrightarrow>
                    check_seed_urls_pattern config = Some IncorrectSeedURLError)
              \<and> (all_match xs = Inr True \<longrightarrow> check_seed_urls_pattern config = None))"
  using assms
  by (cases s) (simp_all add: check_seed_urls_list_def check_seed_urls_pattern_def)

text \<open>
  Claim C8, as the code has it by design. On a configuration that has all seven
  fields, the first field that fails its check decides the error, in the order seed
  URLs, number of articles, headers, encoding, timeout, boolean flags. Seed URLs that
  are not a list, or a list with a string that does not begin with \<open>http://\<close> or
  \<open>https://\<close>, raise \<open>IncorrectSeedURLError\<close>. The number of articles has two kinds: a value
  that is not an \<open>int\<close> for \<open>isinstance\<close> raises \<open>IncorrectNumberOfArticlesError\<close>, an
  integer above 150 raises \<open>NumberOfArticlesOutOfRangeError\<close>, an integer from 1 to 150
  raises neither. Headers that are not a dictionary raise \<open>IncorrectHeadersError\<close>, an
  encoding that is not a string \<open>IncorrectEncodingError\<close>, a timeout that is not an
  integer strictly between 0 and 60 \<open>IncorrectTimeoutError\<close>. The two flags
  \<open>should_verify_certificate\<close> and \<open>headless_mode\<close> share one kind: either of them, when it
  is not a boolean, raises \<open>IncorrectVerifyError\<close>. With every field in order the
  validation returns. What an integer not above 0 raises is not part of this statement.
\<close>

theorem validation_error_kinds:
  assumes "subscript config ''seed_urls'' = Inr s"
    and "subscript config ''total_articles_to_find_and_parse'' = Inr n"
    and "subscript config ''headers'' = Inr h"
    and "subscript config ''encoding'' = Inr e"
    and "subscript config ''timeout'' = Inr t"
    and "subscript config ''should_verify_certificate'' = Inr b1"
    and "subscript config ''headless_mode'' = Inr b2"
  shows "((\<not> isinstance_list s \<or> (\<exists>xs. s = JList xs \<and> all_match xs = Inr False)) \<longrightarrow>
            validate_config_content config = Some IncorrectSeedURLError)
   \<and> ((\<exists>xs. s = JList xs \<and> all_match xs = Inr True) \<longrightarrow>
        (\<not> isinstance_int n \<longrightarrow>
           validate_config_content config = Some IncorrectNumberOfArticlesError)
      \<and> (isinstance_int n \<and> 150 < int_value n \<longrightarrow>
           validate_config_content config = Some NumberOfArticlesOutOfRangeError)
      \<and> (isinstance_int n \<and> 0 < int_value n \<and> int_value n \<le> 150 \<longrightarrow>
           (\<not> isinstance_dict h \<longrightarrow>
              validate_config_content config = Some IncorrectHeadersError)
         \<and> (isinstance_dict h \<longrightarrow>
              (\<not> isinstance_str e \<longrightarrow>
                 validate_config_content config = Some IncorrectEncodingError)
            \<and> (isinstance_str e \<longrightarrow>
                 (\<not> (isinstance_int t \<and> 0 < int_value t \<and> int_value t < 60) \<longrightarrow>
                    validate_config_content config = Some IncorrectTimeoutError)
               \<and> (isinstance_int t \<and> 0 < int_value t \<and> int_value t < 60 \<longrightarrow>
                    (\<not> isinstance_bool b1 \<or> \<not> isinstance_bool b2 \<longrightarrow>
                       validate_config_content config = Some IncorrectVerifyError)
                  \<and> (isinstance_bool b1 \<and> isinstance_bool b2 \<longrightarrow>
                       validate_config_content config = None))))))"
proof -
  note sc = seed_checks [OF assms(1)]
  have rest: "check_total_articles_type config =
                (if \<not> isinstance_int n \<or> int_value n \<le> 0
                 then Some IncorrectNumberOfArticlesError else None)"
    "check_total_articles_range config =
       (if \<not> (0 < int_value n \<and> int_value n \<le> 150)
        then Some NumberOfArticlesOutOfRangeError else None)"
    "check_headers config = (if \<not> isinstance_dict h then Some IncorrectHeadersError else None)"
    "check_encoding config = (if \<not> isinstance_str e then Some IncorrectEncodingError else None)"
    "check_timeout config =
       (if \<not> isinstance_int t \<or> \<not> (0 < int_value t \<and> int_value t < 60)
        then Some IncorrectTimeoutError else None)"
    "check_verify config =
       (if \<not> isinstance_bool b1 \<or> \<not> isinstance_bool b2
        then Some IncorrectVerifyError else None)"
    using assms
    by (simp_all add: check_total_articles_type_def check_total_articles_range_def
          check_headers_def check_encoding_def check_timeout_def check_verify_def)
  have bad: "validate_config_content config = Some IncorrectSeedURLError"
    if "\<not> isinstance_list s \<or> (\<exists>xs. s = JList xs \<and> all_match xs = Inr False)"
    using that sc by (auto simp: validate_config_content_def)
  have good: "validate_config_content config =
                first_raised [check_total_articles_type config,
                  check_total_articles_range config, check_headers config,
                  check_encoding config, check_timeout config, check_verify config]"
    if "\<exists>xs. s = JList xs \<and> all_match xs = Inr True"
    using that sc by (auto simp: validate_config_content_def)
  show ?thesis
  proof (intro conjI impI)
    assume "\<not> isinstance_list s \<or> (\<exists>xs. s = JList xs \<and> all_match xs = Inr False)"
    then show "validate_config_content config = Some IncorrectSeedURLError" by (rule bad)
  next
    assume g: "\<exists>xs. s = JList xs \<and> all_match xs = Inr True" and "\<not> isinstance_int n"
    then show "validate_config_content config = Some IncorrectNumberOfArticlesError"
      by (simp add: good rest)
  next
    assume g: "\<exists>xs. s = JList xs \<and> all_match xs = Inr True"
      and "isinstance_int n \<and> 150 < int_value n"
    then show "validate_config_content config = Some NumberOfArticlesOutOfRangeError"
      by (simp add: good rest)
  next
    assume g: "\<exists>xs. s = JList xs \<and> all_match xs = Inr True"
      and "isinstance_int n \<and> 0 < int_value n \<and> int_value n \<le> 150"
      and "\<not> isinstance_dict h"
    then show "validate_config_content config = Some IncorrectHeadersError"
      by (simp add: good rest)
  next
    assume g: "\<exists>xs. s = JList xs \<and> all_match xs = Inr True"
      and "isinstance_int n \<and> 0 < int_value n \<and> int_value n \<le> 150"
      and "isinstance_dict h" and "\<not> isinstance_str e"
    then show "validate_config_content config = Some IncorrectEncodingError"
      by (simp add: good rest)
  next
    assume g: "\<exists>xs. s = JList xs \<and> all_match xs = Inr True"
      and "isinstance_int n \<and> 0 < int_value n \<and> int_value n \<le> 150"
      and "isinstance_dict h" and "isinstance_str e"
      and "\<not> (isinstance_int t \<and> 0 < int_value t \<and> int_value t < 60)"
    then show "validate_config_content config = Some IncorrectTimeoutError"
      by (simp add: good rest)
  next
    assume g: "\<exists>xs. s = JList xs \<and> all_match xs = Inr True"
      and "isinstance_int n \<and> 0 < int_value n \<and> int_value n \<le> 150"
      and "isinstance_dict h" and "isinstance_str e"
      and "isinstance_int t \<and> 0 < int_value t \<and> int_value t < 60"
      and "\<not> isinstance_bool b1 \<or> \<not> isinstance_bool b2"
    then show "validate_config_content config = Some IncorrectVerifyError"
      by (simp add: good rest)
  next
    assume g: "\<exists>xs. s = JList xs \<and> all_match xs = Inr True"
      and "isinstance_int n \<and> 0 < int_value n \<and> int_value n \<le> 150"
      and "isinstance_dict h" and "isinstance_str e"
      and "isinstance_int t \<and> 0 < int_value t \<and> int_value t < 60"
      and "isinstance_bool b1 \<and> isinstance_bool b2"
    then show "validate_config_content config = None"
      by (simp add: good rest)
  qed
qed

lemma validate_example_flags:
  "validate_config_content (config_with_flags v h) =
     (if \<not> isinstance_bool v \<or> \<not> isinstance_bool h then Some IncorrectVerifyError else None)"
  by (simp add: validate_config_content_def config_with_flags_def check_seed_urls_list_def
        check_seed_urls_pattern_def check_total_articles_type_def
        check_total_articles_range_def check_headers_def check_encoding_def
        check_timeout_def check_verify_def)

lemma validate_example_zero:
  "validate_config_content (config_with_total (JInt 0)) = Some IncorrectNumberOfArticlesError"
  by (simp add: validate_config_content_def config_with_total_def check_seed_urls_list_def
        check_seed_urls_pattern_def check_total_articles_type_def)

theorem validation_error_kinds_witness:
  "validate_config_content (config_with_total (JInt 200)) = Some NumberOfArticlesOutOfRangeError
   \<and> validate_config_content (config_with_total (JStr ''ten'')) =
       Some IncorrectNumberOfArticlesError
   \<and> validate_config_content (config_with_total (JInt 150)) = None
   \<and> validate_config_content (config_with_flags (JInt 1) (JBool False)) =
       Some IncorrectVerifyError
   \<and> validate_config_content (config_with_flags (JBool True) (JBool False)) = None"
proof -
  have m: "all_match [JStr ''https://vse42.ru/news''] = Inr True" by simp
  have t: "validate_config_content (config_with_total v) = r"
    if "(\<not> isinstance_int v \<longrightarrow> r = Some IncorrectNumberOfArticlesError)
        \<and> (isinstance_int v \<and> 150 < int_value v \<longrightarrow> r = Some NumberOfArticlesOutOfRangeError)
        \<and> (isinstance_int v \<and> 0 < int_value v \<and> int_value v \<le> 150 \<longrightarrow> r = None)"
      and "\<not> isinstance_int v \<or> 0 < int_value v" for v r
    using that m
      validation_error_kinds
        [of "config_with_total v" "JList [JStr ''https://vse42.ru/news'']" v "JDict []"
            "JStr ''utf-8''" "JInt 5" "JBool True" "JBool False"]
    by (auto simp: config_with_total_def)
  have f: "validate_config_content (config_with_flags v h) = r"
    if "(\<not> isinstance_bool v \<or> \<not> isinstance_bool h \<longrightarrow> r = Some IncorrectVerifyError)
        \<and> (isinstance_bool v \<and> isinstance_bool h \<longrightarrow> r = None)" for v h r
    using that m
      validation_error_kinds
        [of "config_with_flags v h" "JList [JStr ''https://vse42.ru/news'']" "JInt 10"
            "JDict []" "JStr ''utf-8''" "JInt 5" v h]
    by (auto simp: config_with_flags_def)
  show ?thesis
    by (intro conjI t f) simp_all
qed

text \<open>
  Two configurations, each with one malformed field, and the fields differ: the
  certificate flag in one, the headless flag in the other. Both raise the same kind,
  \<open>IncorrectVerifyError\<close>. And the integer 0, which is outside the range from 1 to 150,
  does not raise the error of the range.
\<close>

theorem shared_flag_error_counterexample:
  "validate_config_content (config_with_flags (JInt 1) (JBool False)) =
     Some IncorrectVerifyError
   \<and> validate_config_content (config_with_flags (JBool True) (JStr ''no'')) =
       Some IncorrectVerifyError
   \<and> validate_config_content (config_with_total (JInt 0)) = Some IncorrectNumberOfArticlesError
   \<and> validate_config_content (config_with_total (JInt 0)) \<noteq>
       Some NumberOfArticlesOutOfRangeError"
  by (simp add: validate_example_flags validate_example_zero)

section \<open>The collector\<close>

lemma scan_links_fresh:
  "scan_links c links = Inr u \<Longrightarrow> u \<noteq> [] \<Longrightarrow> u \<notin> set (urls c)"
  by (induction links) (auto simp: Let_def split: option.splits attr_value.splits if_splits)

lemma extract_url_fresh:
  "extract_url bs c = Inr u \<Longrightarrow> u \<noteq> [] \<Longrightarrow> u \<notin> set (urls c)"
  unfolding extract_url_def by (rule scan_links_fresh)

lemma extract_loop_stops:
  "u = [] \<or> int (length (urls c)) = n \<Longrightarrow> extract_loop bs n u (c, t) = (None, c, t)"
  by (auto simp: extract_loop.simps)

lemma extract_loop_step:
  "u \<noteq> [] \<Longrightarrow> int (length (urls c)) \<noteq> n \<Longrightarrow>
   extract_loop bs n u (c, t) =
     (case extract_url bs (c\<lparr>urls := urls c @ [u]\<rparr>) of
        Inl e \<Rightarrow> (Some e, c\<lparr>urls := urls c @ [u]\<rparr>,
                  t\<lparr>snapshots := snapshots t @ [urls c @ [u]]\<rparr>)
      | Inr v \<Rightarrow> extract_loop bs n v (c\<lparr>urls := urls c @ [u]\<rparr>,
                  t\<lparr>snapshots := snapshots t @ [urls c @ [u]]\<rparr>))"
  by (subst extract_loop.simps) (simp add: Let_def cong: sum.case_cong)

lemma extract_loop_props':
  "extract_loop bs n u ct = (r, c', t') \<Longrightarrow>
   (u \<noteq> [] \<longrightarrow> u \<notin> set (urls (fst ct))) \<Longrightarrow> distinct (urls (fst ct)) \<Longrightarrow>
   distinct (urls c') \<and> prefix (urls (fst ct)) (urls c')
   \<and> url_pattern c' = url_pattern (fst ct)
   \<and> requested t' = requested (snd ct) \<and> persisted t' = persisted (snd ct)"
proof (induction bs n u ct rule: extract_loop.induct)
  case (1 bs n u c t)
  show ?case
  proof (cases "u = [] \<or> int (length (urls c)) = n")
    case True
    with "1.prems" show ?thesis by (auto simp: extract_loop_stops)
  next
    case False
    let ?c1 = "c\<lparr>urls := urls c @ [u]\<rparr>"
    let ?t1 = "t\<lparr>snapshots := snapshots t @ [urls c @ [u]]\<rparr>"
    from False "1.prems" have d1: "distinct (urls ?c1)" by simp
    show ?thesis
    proof (cases "extract_url bs ?c1")
      case (Inl e)
      with False "1.prems"(1) have "r = Some e" "c' = ?c1" "t' = ?t1"
        by (simp_all add: extract_loop_step)
      with d1 show ?thesis by simp
    next
      case (Inr v)
      with False "1.prems"(1) have run: "extract_loop bs n v (?c1, ?t1) = (r, c', t')"
        by (simp add: extract_loop_step)
      have fresh: "v \<noteq> [] \<longrightarrow> v \<notin> set (urls ?c1)"
        using extract_url_fresh [OF Inr] by blast
      have "distinct (urls c') \<and> prefix (urls ?c1) (urls c')
            \<and> url_pattern c' = url_pattern ?c1
            \<and> requested t' = requested ?t1 \<and> persisted t' = persisted ?t1"
        using "1.IH" [of ?c1 "t\<lparr>snapshots := snapshots t @ [urls ?c1]\<rparr>" v]
              False Inr run fresh d1
        by simp
      then show ?thesis by (auto dest: append_prefixD)
    qed
  qed
qed

lemma extract_loop_props:
  assumes "extract_loop bs n u (c, t) = (r, c', t')"
    and "u \<noteq> [] \<longrightarrow> u \<notin> set (urls c)"
    and "distinct (urls c)"
  shows "distinct (urls c') \<and> prefix (urls c) (urls c') \<and> url_pattern c' = url_pattern c
         \<and> requested t' = requested t \<and> persisted t' = persisted t"
  using extract_loop_props' [of bs n u "(c, t)" r c' t'] assms by simp

lemma extract_loop_bound':
  "extract_loop bs n u ct = (r, c', t') \<Longrightarrow>
   int (length (urls (fst ct))) \<le> n \<Longrightarrow>
   \<forall>s \<in> set (snapshots (snd ct)). int (length s) \<le> n \<Longrightarrow>
   int (length (urls c')) \<le> n \<and> (\<forall>s \<in> set (snapshots t'). int (length s) \<le> n)"
proof (induction bs n u ct rule: extract_loop.induct)
  case (1 bs n u c t)
  show ?case
  proof (cases "u = [] \<or> int (length (urls c)) = n")
    case True
    with "1.prems" show ?thesis by (auto simp: extract_loop_stops)
  next
    case False
    let ?c1 = "c\<lparr>urls := urls c @ [u]\<rparr>"
    let ?t1 = "t\<lparr>snapshots := snapshots t @ [urls c @ [u]]\<rparr>"
    from False "1.prems" have b1: "int (length (urls ?c1)) \<le> n"
      "\<forall>s \<in> set (snapshots ?t1). int (length s) \<le> n" by auto
    show ?thesis
    proof (cases "extract_url bs ?c1")
      case (Inl e)
      with False "1.prems"(1) have "c' = ?c1" "t' = ?t1"
        by (simp_all add: extract_loop_step)
      with b1 show ?thesis by blast
    next
      case (Inr v)
      with False "1.prems"(1) have run: "extract_loop bs n v (?c1, ?t1) = (r, c', t')"
        by (simp add: extract_loop_step)
      show ?thesis
        using "1.IH" [of ?c1 "t\<lparr>snapshots := snapshots t @ [urls ?c1]\<rparr>" v]
              False Inr run b1
        by simp
    qed
  qed
qed

lemma extract_loop_bound:
  assumes "extract_loop bs n u (c, t) = (r, c', t')"
    and "int (length (urls c)) \<le> n"
    and "\<forall>s \<in> set (snapshots t). int (length s) \<le> n"
  shows "int (length (urls c')) \<le> n \<and> (\<forall>s \<in> set (snapshots t'). int (length s) \<le> n)"
  using extract_loop_bound' [of bs n u "(c, t)" r c' t'] assms by simp


lemma make_request_trace:
  "make_request net u cfg t = (x, t1) \<Longrightarrow>
   x = net (length (requested t)) u \<and> t1 = t\<lparr>requested := requested t @ [u]\<rparr>"
  by (auto simp: make_request_def)

lemma seeds_loop_props:
  "seeds_loop net cfg seeds (c, t) = (r, c', t') \<Longrightarrow> distinct (urls c) \<Longrightarrow>
   distinct (urls c') \<and> prefix (urls c) (urls c') \<and> url_pattern c' = url_pattern c
   \<and> persisted t' = persisted t"
proof (induction seeds arbitrary: c t)
  case Nil
  then show ?case by simp
next
  case (Cons seed_url rest)
  let ?t1 = "t\<lparr>requested := requested t @ [seed_url]\<rparr>"
  show ?case
  proof (cases "net (length (requested t)) seed_url")
    case (Inl e)
    with Cons.prems show ?thesis by (auto simp: make_request_def)
  next
    case (Inr response)
    show ?thesis
    proof (cases "ok response")
      case False
      with Inr Cons.prems have "seeds_loop net cfg rest (c, ?t1) = (r, c', t')"
        by (simp add: make_request_def)
      from Cons.IH [OF this Cons.prems(2)] show ?thesis by simp
    next
      case True
      show ?thesis
      proof (cases "extract_url (page response) c")
        case (Inl e)
        with True Inr Cons.prems show ?thesis by (auto simp: make_request_def)
      next
        case u: (Inr extracted_url)
        obtain r2 c2 t2 where
          loop: "extract_loop (page response) (num_articles cfg) extracted_url (c, ?t1)
                   = (r2, c2, t2)"
          by (cases "extract_loop (page response) (num_articles cfg) extracted_url (c, ?t1)")
             auto
        have p2: "distinct (urls c2) \<and> prefix (urls c) (urls c2)
                  \<and> url_pattern c2 = url_pattern c
                  \<and> requested t2 = requested ?t1 \<and> persisted t2 = persisted ?t1"
          using extract_loop_props [OF loop] extract_url_fresh [OF u] Cons.prems(2) by blast
        show ?thesis
        proof (cases "r2 = None \<and> int (length (urls c2)) \<noteq> num_articles cfg")
          case False
          with True Inr u loop Cons.prems(1) have "c' = c2" "t' = t2"
            by (auto simp: make_request_def split: option.splits if_splits)
          with p2 show ?thesis by simp
        next
          case go: True
          with True Inr u loop Cons.prems(1)
          have "seeds_loop net cfg rest (c2, t2) = (r, c', t')"
            by (simp add: make_request_def)
          from Cons.IH [OF this] p2
          show ?thesis by (auto intro: prefix_order.trans)
        qed
      qed
    qed
  qed
qed

lemma seeds_loop_bound:
  "seeds_loop net cfg seeds (c, t) = (r, c', t') \<Longrightarrow>
   int (length (urls c)) \<le> num_articles cfg \<Longrightarrow>
   \<forall>s \<in> set (snapshots t). int (length s) \<le> num_articles cfg \<Longrightarrow>
   int (length (urls c')) \<le> num_articles cfg
   \<and> (\<forall>s \<in> set (snapshots t'). int (length s) \<le> num_articles cfg)"
proof (induction seeds arbitrary: c t)
  case Nil
  then show ?case by simp
next
  case (Cons seed_url rest)
  let ?t1 = "t\<lparr>requested := requested t @ [seed_url]\<rparr>"
  have s1: "\<forall>s \<in> set (snapshots ?t1). int (length s) \<le> num_articles cfg"
    using Cons.prems(3) by simp
  show ?case
  proof (cases "net (length (requested t)) seed_url")
    case (Inl e)
    with Cons.prems show ?thesis by (auto simp: make_request_def)
  next
    case (Inr response)
    show ?thesis
    proof (cases "ok response")
      case False
      with Inr Cons.prems have "seeds_loop net cfg rest (c, ?t1) = (r, c', t')"
        by (simp add: make_request_def)
      from Cons.IH [OF this Cons.prems(2) s1] show ?thesis .
    next
      case True
      show ?thesis
      proof (cases "extract_url (page response) c")
        case (Inl e)
        with True Inr Cons.prems show ?thesis by (auto simp: make_request_def)
      next
        case u: (Inr extracted_url)
        obtain r2 c2 t2 where
          loop: "extract_loop (page response) (num_articles cfg) extracted_url (c, ?t1)
                   = (r2, c2, t2)"
          by (cases "extract_loop (page response) (num_articles cfg) extracted_url (c, ?t1)")
             auto
        note b2 = extract_loop_bound [OF loop Cons.prems(2) s1]
        show ?thesis
        proof (cases "r2 = None \<and> int (length (urls c2)) \<noteq> num_articles cfg")
          case False
          with True Inr u loop Cons.prems(1) have "c' = c2" "t' = t2"
            by (auto simp: make_request_def split: option.splits if_splits)
          with b2 show ?thesis by simp
        next
          case go: True
          with True Inr u loop Cons.prems(1)
          have "seeds_loop net cfg rest (c2, t2) = (r, c', t')"
            by (simp add: make_request_def)
          from Cons.IH [OF this] b2 show ?thesis by blast
        qed
      qed
    qed
  qed
qed

lemma seeds_loop_stop:
  "seeds_loop net cfg seeds (c, t) = (r, c', t') \<Longrightarrow>
   int (length (urls c)) < num_articles cfg \<Longrightarrow>
   \<forall>s \<in> set (snapshots t). int (length s) \<le> num_articles cfg \<Longrightarrow>
   int (length (urls c')) = num_articles cfg \<Longrightarrow>
   seeds_loop net cfg (seeds @ later) (c, t) = (r, c', t')"
proof (induction seeds arbitrary: c t)
  case Nil
  then show ?case by simp
next
  case (Cons seed_url rest)
  let ?t1 = "t\<lparr>requested := requested t @ [seed_url]\<rparr>"
  have s1: "\<forall>s \<in> set (snapshots ?t1). int (length s) \<le> num_articles cfg"
    using Cons.prems(3) by simp
  show ?case
  proof (cases "net (length (requested t)) seed_url")
    case (Inl e)
    with Cons.prems show ?thesis by (auto simp: make_request_def)
  next
    case (Inr response)
    show ?thesis
    proof (cases "ok response")
      case False
      with Inr Cons.prems have "seeds_loop net cfg rest (c, ?t1) = (r, c', t')"
        by (simp add: make_request_def)
      from Cons.IH [OF this Cons.prems(2) s1 Cons.prems(4)] False Inr
      show ?thesis by (simp add: make_request_def)
    next
      case True
      show ?thesis
      proof (cases "extract_url (page response) c")
        case (Inl e)
        with True Inr Cons.prems show ?thesis by (auto simp: make_request_def)
      next
        case u: (Inr extracted_url)
        obtain r2 c2 t2 where
          loop: "extract_loop (page response) (num_articles cfg) extracted_url (c, ?t1)
                   = (r2, c2, t2)"
          by (cases "extract_loop (page response) (num_articles cfg) extracted_url (c, ?t1)")
             auto
        have b2: "int (length (urls c2)) \<le> num_articles cfg"
          "\<forall>s \<in> set (snapshots t2). int (length s) \<le> num_articles cfg"
          using extract_loop_bound [OF loop _ s1] Cons.prems(2) by auto
        show ?thesis
        proof (cases "r2 = None \<and> int (length (urls c2)) \<noteq> num_articles cfg")
          case False
          with True Inr u loop Cons.prems(1) show ?thesis
            by (auto simp: make_request_def split: option.splits if_splits)
        next
          case go: True
          with True Inr u loop Cons.prems(1)
          have "seeds_loop net cfg rest (c2, t2) = (r, c', t')"
            by (simp add: make_request_def)
          moreover from go b2 have "int (length (urls c2)) < num_articles cfg" by simp
          ultimately have "seeds_loop net cfg (rest @ later) (c2, t2) = (r, c', t')"
            using Cons.IH b2(2) Cons.prems(4) by blast
          with go True Inr u loop show ?thesis by (simp add: make_request_def)
        qed
      qed
    qed
  qed
qed

section \<open>The parser and the loop over the collected URLs\<close>

lemma seeds_loop_config:
  "seeds_loop net (cfg\<lparr>seed_urls := x\<rparr>) seeds (c, t) = seeds_loop net cfg seeds (c, t)"
proof (induction seeds arbitrary: c t)
  case Nil
  show ?case by simp
next
  case (Cons seed_url rest)
  show ?case
    by (simp add: make_request_def Cons.IH split: sum.splits prod.splits option.splits)
qed

lemma fill_meta_identity:
  "fill_article_with_meta_information soup a = Inr a' \<Longrightarrow>
   url a' = url a \<and> article_id a' = article_id a \<and> text_body a' = text_body a"
  by (auto simp: fill_article_with_meta_information_def Let_def
        split: option.splits sum.splits)

lemma fill_text_result:
  "fill_article_with_text soup a =
     (decompose_all ''lead'' (decompose_all ''footer'' soup),
      a\<lparr>text_body := Some (replace nbsp CHR '' '' (join newline
           (filter (\<lambda>s. s \<noteq> []) (map get_text (slice_to_neg 5
              (find_all (Some ''p'') None
                 (decompose_all ''lead'' (decompose_all ''footer'' soup))))))))\<rparr>)"
  by (simp add: fill_article_with_text_def Let_def)

lemma parse_identity:
  "parse net cfg u i t = (Inr a, t1) \<Longrightarrow> url a = u \<and> article_id a = i"
  by (auto simp: parse_def Let_def make_request_def fill_text_result Article_def
        split: sum.splits if_splits dest!: fill_meta_identity)

lemma parse_trace:
  "parse net cfg u i t = (x, t1) \<Longrightarrow> t1 = t\<lparr>requested := requested t @ [u]\<rparr>"
  by (auto simp: parse_def Let_def make_request_def fill_text_result
        split: sum.splits if_splits)

lemma articles_loop_sinks:
  "articles_loop net cfg xs t = (r, t') \<Longrightarrow>
   \<exists>m \<le> length xs.
     map sink_key (persisted t') = map sink_key (persisted t) @ concat (map (\<lambda>p. [p, p]) (take m xs))
     \<and> (r = None \<longrightarrow> m = length xs)"
proof (induction xs arbitrary: t)
  case Nil
  then show ?case by simp
next
  case (Cons x xs)
  obtain i u where x: "x = (i, u)" by (cases x)
  obtain y t1 where p: "parse net cfg u i t = (y, t1)" by (cases "parse net cfg u i t")
  have t1: "persisted t1 = persisted t" using parse_trace [OF p] by simp
  show ?case
  proof (cases y)
    case (Inl e)
    with Cons.prems x p have "t' = t1" "r = Some e" by auto
    with t1 show ?thesis by (intro exI [of _ 0]) simp
  next
    case (Inr a)
    let ?t2 = "t1\<lparr>persisted := persisted t1 @ [to_raw a, to_meta a]\<rparr>"
    from Cons.prems x p Inr have "articles_loop net cfg xs ?t2 = (r, t')" by simp
    from Cons.IH [OF this] obtain m where m: "m \<le> length xs"
      "map sink_key (persisted t') =
         map sink_key (persisted ?t2) @ concat (map (\<lambda>p. [p, p]) (take m xs))"
      "r = None \<longrightarrow> m = length xs" by blast
    have k: "sink_key (to_raw a) = (i, u)" "sink_key (to_meta a) = (i, u)"
      using parse_identity [of net cfg u i t a t1] p Inr by (simp_all add: sink_key_def)
    show ?thesis
      using m k t1 x by (intro exI [of _ "Suc m"]) simp
  qed
qed

lemma enumerate_from_nth:
  "k < length xs \<Longrightarrow> enumerate_from j xs ! k = (j + int k, xs ! k)"
proof (induction xs arbitrary: j k)
  case Nil
  then show ?case by simp
next
  case (Cons x xs)
  show ?case
  proof (cases k)
    case 0
    then show ?thesis by simp
  next
    case (Suc k')
    with Cons.prems have "k' < length xs" by simp
    from Cons.IH [OF this, of "j + 1"] Suc show ?thesis by simp
  qed
qed

lemma length_enumerate_from: "length (enumerate_from j xs) = length xs"
  by (induction xs arbitrary: j) simp_all

section \<open>The example site\<close>

lemma extract_url_two_cards:
  "url_pattern c = ''https://vse42.ru/articles'' \<Longrightarrow>
   extract_url two_cards c =
     Inr (if ''https://vse42.ru/articles/1'' \<notin> set (urls c) then ''https://vse42.ru/articles/1''
          else if ''https://vse42.ru/articles/2'' \<notin> set (urls c)
               then ''https://vse42.ru/articles/2'' else [])"
  by (simp add: extract_url_def links_of_two_cards card_def slice_from_def)

lemma loop_two_cards:
  "extract_loop two_cards 2 ''https://vse42.ru/articles/1''
     (Crawler, \<lparr>requested = [''https://vse42.ru/news''], snapshots = [], persisted = []\<rparr>) =
   (None,
    Crawler\<lparr>urls := [''https://vse42.ru/articles/1'', ''https://vse42.ru/articles/2'']\<rparr>,
    \<lparr>requested = [''https://vse42.ru/news''],
     snapshots = [[''https://vse42.ru/articles/1''],
                  [''https://vse42.ru/articles/1'', ''https://vse42.ru/articles/2'']],
     persisted = []\<rparr>)"
  by (simp add: extract_loop.simps extract_url_two_cards Crawler_def Let_def)

lemma find_articles_example:
  "find_articles (example_site r1 r2) example_config (Crawler, no_trace) =
   (None,
    Crawler\<lparr>urls := [''https://vse42.ru/articles/1'', ''https://vse42.ru/articles/2'']\<rparr>,
    \<lparr>requested = [''https://vse42.ru/news''],
     snapshots = [[''https://vse42.ru/articles/1''],
                  [''https://vse42.ru/articles/1'', ''https://vse42.ru/articles/2'']],
     persisted = []\<rparr>)"
proof -
  have "extract_url two_cards Crawler = Inr ''https://vse42.ru/articles/1''"
    by (simp add: extract_url_two_cards Crawler_def)
  then show ?thesis
    by (simp add: find_articles_def example_config_def make_request_def no_trace_def
          example_site_def loop_two_cards)
qed

section \<open>The bound on the collected URLs\<close>

text \<open>
  Claim C5. A crawler that starts with no URL, under a configuration whose target count
  is positive (validation admits 1 to 150 only), never holds more URLs than the target:
  neither at the end of \<open>find_articles\<close> nor after any \<open>append\<close> on the way. Once the count
  is the target, collection is over: seeds that follow in the list are never requested
  and change nothing, whatever they are.
\<close>

theorem collected_count_bounded:
  assumes "0 < num_articles cfg"
    and "find_articles net cfg (Crawler, no_trace) = (r, c, t)"
  shows "int (length (urls c)) \<le> num_articles cfg
         \<and> (\<forall>s \<in> set (snapshots t). int (length s) \<le> num_articles cfg)
         \<and> (int (length (urls c)) = num_articles cfg \<longrightarrow>
              (\<forall>later. find_articles net (cfg\<lparr>seed_urls := seed_urls cfg @ later\<rparr>)
                          (Crawler, no_trace) = (r, c, t)))"
proof (intro conjI impI allI)
  have run: "seeds_loop net cfg (seed_urls cfg) (Crawler, no_trace) = (r, c, t)"
    using assms(2) by (simp add: find_articles_def)
  have start: "int (length (urls Crawler)) \<le> num_articles cfg"
    "\<forall>s \<in> set (snapshots no_trace). int (length s) \<le> num_articles cfg"
    using assms(1) by (simp_all add: Crawler_def no_trace_def)
  from seeds_loop_bound [OF run start]
  show "int (length (urls c)) \<le> num_articles cfg"
    and "\<forall>s \<in> set (snapshots t). int (length s) \<le> num_articles cfg"
    by simp_all
  fix later
  assume full: "int (length (urls c)) = num_articles cfg"
  have "int (length (urls Crawler)) < num_articles cfg"
    using assms(1) by (simp add: Crawler_def)
  from seeds_loop_stop [OF run this start(2) full, of later]
  show "find_articles net (cfg\<lparr>seed_urls := seed_urls cfg @ later\<rparr>) (Crawler, no_trace)
          = (r, c, t)"
    by (simp add: find_articles_def seeds_loop_config)
qed

theorem collected_count_bounded_witness:
  "int (length [''https://vse42.ru/articles/1'', ''https://vse42.ru/articles/2''])
     \<le> num_articles example_config
   \<and> find_articles (example_site good_response good_response)
        (example_config\<lparr>seed_urls := seed_urls example_config @ [''https://vse42.ru/more'']\<rparr>)
        (Crawler, no_trace) =
      (None,
       Crawler\<lparr>urls := [''https://vse42.ru/articles/1'', ''https://vse42.ru/articles/2'']\<rparr>,
       \<lparr>requested = [''https://vse42.ru/news''],
        snapshots = [[''https://vse42.ru/articles/1''],
                     [''https://vse42.ru/articles/1'', ''https://vse42.ru/articles/2'']],
        persisted = []\<rparr>)"
proof -
  have pos: "0 < num_articles example_config" by (simp add: example_config_def)
  from collected_count_bounded [OF pos find_articles_example [of good_response good_response]]
  show ?thesis by (simp add: example_config_def)
qed

section \<open>The date of an article\<close>

lemma re_date_sample:
  "re_date ''2023-05-10T12:00:00+0300'' = Some ((2023, 5, 10), ''T12:00:00+0300'')"
  by (simp add: re_date_def re_Y_def re_m_def re_d_def digit_def)

lemma re_time_sample: "re_time ''12:00:00+0300'' = Some ((12, 0, 0), ''+0300'')"
  by (simp add: re_time_def re_H_def re_M_def re_S_def digit_def)

lemma re_z_sample: "re_z ''+0300'' = Some 10800000000"
  by (simp add: re_z_def re_offset_seconds_def digit_def)

lemma re_date_fallback: "re_date ''2024-01-01'' = Some ((2024, 1, 1), [])"
  by (simp add: re_date_def re_Y_def re_m_def re_d_def digit_def)

lemma unify_sample:
  "unify_date_format ''2023-05-10T12:00:00+0300'' =
     Inr \<lparr>year = 2023, month = 5, day = 10, hour = 12, minute = 0, second = 0,
          microsecond = 0, utcoffset = 10800000000\<rparr>"
  by (simp add: unify_date_format_def strptime_iso_def re_format_def re_date_sample
        re_time_sample re_z_sample days_in_month_def)

lemma unify_fallback: "unify_date_format ''2024-01-01'' = Inl ValueError"
  by (simp add: unify_date_format_def strptime_iso_def re_format_def re_date_fallback)

text \<open>
  Claim C1, on a page that has its heading. When the page has no \<open>time\<close> tag, the fallback
  string \<open>2024-01-01\<close> goes through the same strict parser as a real date, and the parser
  rejects it, having no time and no offset to read: meta extraction raises \<open>ValueError\<close>
  and the article gets no date. When the first \<open>time\<close> tag carries
  \<open>datetime="2023-05-10T12:00:00+0300"\<close>, the date is that instant, 10 May 2023 at 12:00:00
  with an offset of three hours.
\<close>

theorem fallback_date_is_rejected:
  assumes "find_first ''h1'' article_soup = Some h1"
  shows "(find_first ''time'' article_soup = None \<longrightarrow>
            fill_article_with_meta_information article_soup a = Inl ValueError)
         \<and> (\<forall>date_tag. find_first ''time'' article_soup = Some date_tag
               \<and> get date_tag ''datetime'' = Some (AStr ''2023-05-10T12:00:00+0300'') \<longrightarrow>
               (\<exists>a'. fill_article_with_meta_information article_soup a = Inr a'
                  \<and> date a' =
                      Some \<lparr>year = 2023, month = 5, day = 10, hour = 12, minute = 0,
                            second = 0, microsecond = 0, utcoffset = 10800000000\<rparr>))"
  using assms
  by (simp add: fill_article_with_meta_information_def Let_def unify_fallback
        str_of_attr_def unify_sample del: One_nat_def)

section \<open>Failures while the collected URLs are parsed\<close>

lemma parse_not_ok:
  "net (length (requested t)) u = Inr r \<Longrightarrow> \<not> ok r \<Longrightarrow>
   parse net cfg u i t = (Inr (Article u i), t\<lparr>requested := requested t @ [u]\<rparr>)"
  by (simp add: parse_def make_request_def Let_def)

lemma parse_no_h1:
  "net (length (requested t)) u = Inr r \<Longrightarrow> ok r \<Longrightarrow>
   find_first ''h1'' (decompose_all ''lead'' (decompose_all ''footer'' (page r))) = None \<Longrightarrow>
   parse net cfg u i t = (Inl AttributeError, t\<lparr>requested := requested t @ [u]\<rparr>)"
  by (simp add: parse_def make_request_def Let_def fill_text_result
        fill_article_with_meta_information_def)

lemma articles_loop_append:
  "articles_loop net cfg (xs @ ys) t =
     (case articles_loop net cfg xs t of
        (Some e, t1) \<Rightarrow> (Some e, t1)
      | (None, t1) \<Rightarrow> articles_loop net cfg ys t1)"
proof (induction xs arbitrary: t)
  case Nil
  show ?case by simp
next
  case (Cons x xs)
  obtain i u where x: "x = (i, u)" by (cases x)
  show ?case
    by (simp add: x Cons.IH split: prod.splits sum.splits)
qed

text \<open>
  Claim C2, as the code has it. When the page of a collected URL, once the footer and
  lead tags are removed, has no \<open>h1\<close> tag, \<open>parse\<close> raises \<open>AttributeError\<close>. Nothing catches
  it: the loop of \<open>main\<close> ends there with that error. The record of this article is not
  stored, the records stored for the URLs before it stay, and the URLs after it are
  neither requested nor stored.
\<close>

theorem missing_heading_ends_run:
  assumes "articles_loop net cfg earlier t = (None, t1)"
    and "net (length (requested t1)) u = Inr r"
    and "ok r"
    and "find_first ''h1'' (decompose_all ''lead'' (decompose_all ''footer'' (page r))) = None"
  shows "parse net cfg u i t1 = (Inl AttributeError, t1\<lparr>requested := requested t1 @ [u]\<rparr>)
         \<and> articles_loop net cfg (earlier @ (i, u) # later) t =
             (Some AttributeError, t1\<lparr>requested := requested t1 @ [u]\<rparr>)"
  using assms parse_no_h1 [of net t1 u r cfg i]
  by (simp add: articles_loop_append)

text \<open>
  Claim C3, checked on the code. When the request for a collected URL returns a response
  that is not \<open>ok\<close>, \<open>parse\<close> returns the article as it was built: identifier and URL, no
  text, title, date, topics or author. So far the claim holds. The record is stored all
  the same: the loop of \<open>main\<close> hands it to \<open>to_raw\<close> and then to \<open>to_meta\<close>, and goes on
  with the next URL.
\<close>

theorem failed_fetch_is_stored:
  assumes "net (length (requested t)) u = Inr r"
    and "\<not> ok r"
  shows "parse net cfg u i t = (Inr (Article u i), t\<lparr>requested := requested t @ [u]\<rparr>)
         \<and> text_body (Article u i) = None \<and> title (Article u i) = None
         \<and> date (Article u i) = None \<and> topics (Article u i) = None
         \<and> author (Article u i) = None
         \<and> articles_loop net cfg ((i, u) # later) t =
             articles_loop net cfg later
               (t\<lparr>requested := requested t @ [u],
                  persisted := persisted t @ [to_raw (Article u i), to_meta (Article u i)]\<rparr>)"
  using assms parse_not_ok [of net t u r cfg i]
  by (simp add: Article_def)

section \<open>Order and uniqueness of the collected URLs\<close>

text \<open>
  Claim C4. \<open>find_articles\<close> keeps the collected URLs free of repetitions and only adds at
  the end, so what was collected stays in front, in its order. In \<open>main\<close>, which starts
  from the empty list, the collected URLs are distinct, and the sink calls are, in
  order, \<open>to_raw\<close> and \<open>to_meta\<close> for the first URL under identifier 1, then for the second
  under 2, and so on: for all the URLs when the run ends without an exception, for the
  first \<open>m\<close> of them otherwise.
\<close>

theorem collected_urls_distinct_in_order:
  assumes "find_articles net cfg (c0, t0) = (r0, c1, t1)"
    and "distinct (urls c0)"
    and "main net cfg = (r, c, t)"
  shows "distinct (urls c1) \<and> prefix (urls c0) (urls c1)
         \<and> distinct (urls c)
         \<and> (\<exists>m \<le> length (urls c).
               map sink_key (persisted t) =
                 concat (map (\<lambda>p. [p, p]) (take m (enumerate_from 1 (urls c))))
               \<and> (r = None \<longrightarrow> m = length (urls c)))
         \<and> (\<forall>k < length (urls c). enumerate_from 1 (urls c) ! k = (int k + 1, urls c ! k))"
proof -
  have a: "distinct (urls c1) \<and> prefix (urls c0) (urls c1)"
    using seeds_loop_props [of net cfg "seed_urls cfg" c0 t0 r0 c1 t1] assms(1,2)
    by (simp add: find_articles_def)
  obtain r2 c2 t2 where fa: "find_articles net cfg (Crawler, no_trace) = (r2, c2, t2)"
    by (cases "find_articles net cfg (Crawler, no_trace)") auto
  have b: "distinct (urls c2) \<and> persisted t2 = []"
    using seeds_loop_props [of net cfg "seed_urls cfg" Crawler no_trace r2 c2 t2] fa
    by (simp add: find_articles_def Crawler_def no_trace_def)
  have c: "c = c2" using assms(3) fa by (auto simp: main_def split: option.splits prod.splits)
  have d: "\<exists>m \<le> length (urls c).
               map sink_key (persisted t) =
                 concat (map (\<lambda>p. [p, p]) (take m (enumerate_from 1 (urls c))))
               \<and> (r = None \<longrightarrow> m = length (urls c))"
  proof (cases r2)
    case (Some e)
    with assms(3) fa have "t = t2" "r = Some e" by (auto simp: main_def)
    with b show ?thesis by (intro exI [of _ 0]) simp
  next
    case None
    with assms(3) fa c have "articles_loop net cfg (enumerate_from 1 (urls c)) t2 = (r, t)"
      by (auto simp: main_def split: prod.splits)
    from articles_loop_sinks [OF this] b show ?thesis
      by (simp add: length_enumerate_from)
  qed
  have e: "\<forall>k < length (urls c). enumerate_from 1 (urls c) ! k = (int k + 1, urls c ! k)"
    by (simp add: enumerate_from_nth)
  from a b c d e show ?thesis by blast
qed

section \<open>Runs of the example site\<close>

lemma good_article_text:
  "fill_article_with_text good_article a = (good_article, a\<lparr>text_body := Some []\<rparr>)"
  by (simp add: fill_text_result good_article_def para_def decompose_all_def find_all_def
        descendants_def matches_def slice_to_neg_def replace_def)

lemma good_article_meta:
  "fill_article_with_meta_information good_article a =
     Inr (a\<lparr>author := Some [''NOT FOUND''], title := Some ''Title'',
            date := Some \<lparr>year = 2023, month = 5, day = 10, hour = 12, minute = 0,
                          second = 0, microsecond = 0, utcoffset = 10800000000\<rparr>,
            topics := Some []\<rparr>)"
proof -
  have h: "find_first ''h1'' good_article = Some (Elem ''h1'' [] [Text '' Title ''])"
    by (simp add: find_first_def find_all_def descendants_def matches_def good_article_def
          para_def)
  have d: "find_first ''time'' good_article =
             Some (Elem ''time'' [(''datetime'', AStr ''2023-05-10T12:00:00+0300'')] [])"
    by (simp add: find_first_def find_all_def descendants_def matches_def good_article_def
          para_def)
  have t: "find_all None (Some topics_class) good_article = []"
    by (simp add: find_all_def descendants_def matches_def good_article_def para_def)
  have s: "strip '' Title '' = ''Title''"
    by (simp add: strip_def isspace_def)
  show ?thesis
    by (simp add: fill_article_with_meta_information_def Let_def h d t s str_of_string_def
          str_of_attr_def unify_sample)
qed

lemma parse_good:
  "net (length (requested t)) u = Inr good_response \<Longrightarrow>
   parse net cfg u i t = (Inr (parsed_good u i), t\<lparr>requested := requested t @ [u]\<rparr>)"
  by (simp add: parse_def make_request_def Let_def good_response_def good_article_text
        good_article_meta Article_def parsed_good_def)

lemma no_h1_article_heading:
  "find_first ''h1'' (decompose_all ''lead'' (decompose_all ''footer'' no_h1_article)) = None"
  by (simp add: find_first_def find_all_def descendants_def matches_def no_h1_article_def
        para_def decompose_all_def)

lemma no_time_article_tags:
  "find_first ''h1'' (decompose_all ''lead'' (decompose_all ''footer'' no_time_article))
     = Some (Elem ''h1'' [] [Text ''Title''])"
  "find_first ''time'' (decompose_all ''lead'' (decompose_all ''footer'' no_time_article))
     = None"
  by (simp_all add: find_first_def find_all_def descendants_def matches_def
        no_time_article_def para_def decompose_all_def)

lemma articles_example_good:
  "articles_loop (example_site good_response good_response) example_config
     [(1, ''https://vse42.ru/articles/1''), (2, ''https://vse42.ru/articles/2'')]
     \<lparr>requested = [''https://vse42.ru/news''], snapshots = sn, persisted = []\<rparr> =
   (None,
    \<lparr>requested = [''https://vse42.ru/news'', ''https://vse42.ru/articles/1'',
                  ''https://vse42.ru/articles/2''],
     snapshots = sn,
     persisted = [to_raw (parsed_good ''https://vse42.ru/articles/1'' 1),
                  to_meta (parsed_good ''https://vse42.ru/articles/1'' 1),
                  to_raw (parsed_good ''https://vse42.ru/articles/2'' 2),
                  to_meta (parsed_good ''https://vse42.ru/articles/2'' 2)]\<rparr>)"
proof -
  have a: "parse (example_site good_response good_response) example_config
             ''https://vse42.ru/articles/1'' 1
             \<lparr>requested = [''https://vse42.ru/news''], snapshots = sn, persisted = []\<rparr> =
           (Inr (parsed_good ''https://vse42.ru/articles/1'' 1),
            \<lparr>requested = [''https://vse42.ru/news'', ''https://vse42.ru/articles/1''],
             snapshots = sn, persisted = []\<rparr>)"
    by (subst parse_good) (simp_all add: example_site_def)
  have b: "parse (example_site good_response good_response) example_config
             ''https://vse42.ru/articles/2'' 2
             \<lparr>requested = [''https://vse42.ru/news'', ''https://vse42.ru/articles/1''],
              snapshots = sn, persisted = ps\<rparr> =
           (Inr (parsed_good ''https://vse42.ru/articles/2'' 2),
            \<lparr>requested = [''https://vse42.ru/news'', ''https://vse42.ru/articles/1'',
                          ''https://vse42.ru/articles/2''],
             snapshots = sn, persisted = ps\<rparr>)" for ps
    by (subst parse_good) (simp_all add: example_site_def)
  show ?thesis by (simp add: a b)
qed


lemma main_example:
  "main (example_site r1 r2) example_config =
     (case articles_loop (example_site r1 r2) example_config
             [(1, ''https://vse42.ru/articles/1''), (2, ''https://vse42.ru/articles/2'')]
             \<lparr>requested = [''https://vse42.ru/news''],
              snapshots = [[''https://vse42.ru/articles/1''],
                           [''https://vse42.ru/articles/1'', ''https://vse42.ru/articles/2'']],
              persisted = []\<rparr> of
        (r, t1) \<Rightarrow>
          (r, Crawler\<lparr>urls := [''https://vse42.ru/articles/1'',
                                 ''https://vse42.ru/articles/2'']\<rparr>, t1))"
  by (simp add: main_def find_articles_example)

lemma main_example_good:
  "main (example_site good_response good_response) example_config =
     (None,
      Crawler\<lparr>urls := [''https://vse42.ru/articles/1'', ''https://vse42.ru/articles/2'']\<rparr>,
      \<lparr>requested = [''https://vse42.ru/news'', ''https://vse42.ru/articles/1'',
                    ''https://vse42.ru/articles/2''],
       snapshots = [[''https://vse42.ru/articles/1''],
                    [''https://vse42.ru/articles/1'', ''https://vse42.ru/articles/2'']],
       persisted = [to_raw (parsed_good ''https://vse42.ru/articles/1'' 1),
                    to_meta (parsed_good ''https://vse42.ru/articles/1'' 1),
                    to_raw (parsed_good ''https://vse42.ru/articles/2'' 2),
                    to_meta (parsed_good ''https://vse42.ru/articles/2'' 2)]\<rparr>)"
  by (simp add: main_example articles_example_good del: articles_loop.simps)

theorem collected_urls_distinct_in_order_witness:
  "distinct [''https://vse42.ru/articles/1'', ''https://vse42.ru/articles/2'']
   \<and> (\<exists>m \<le> 2.
         [(1, ''https://vse42.ru/articles/1''), (1, ''https://vse42.ru/articles/1''),
          (2, ''https://vse42.ru/articles/2''), (2, ''https://vse42.ru/articles/2'')] =
           concat (map (\<lambda>p. [p, p])
             (take m (enumerate_from 1
                [''https://vse42.ru/articles/1'', ''https://vse42.ru/articles/2''])))
         \<and> m = 2)"
proof -
  have d: "distinct (urls Crawler)" by (simp add: Crawler_def)
  from collected_urls_distinct_in_order
         [OF find_articles_example [of good_response good_response] d main_example_good]
  show ?thesis by (simp add: sink_key_def parsed_good_def)
qed

theorem missing_heading_ends_run_witness:
  "articles_loop (example_site \<lparr>ok = True, page = no_h1_article\<rparr> good_response)
     example_config
     ([] @ (1, ''https://vse42.ru/articles/1'') # [(2, ''https://vse42.ru/articles/2'')])
     \<lparr>requested = [''https://vse42.ru/news''], snapshots = [], persisted = []\<rparr> =
   (Some AttributeError,
    \<lparr>requested = [''https://vse42.ru/news'', ''https://vse42.ru/articles/1''],
     snapshots = [], persisted = []\<rparr>)"
  using missing_heading_ends_run
          [of "example_site \<lparr>ok = True, page = no_h1_article\<rparr> good_response"
              example_config "[]"
              "\<lparr>requested = [''https://vse42.ru/news''], snapshots = [], persisted = []\<rparr>"
              "\<lparr>requested = [''https://vse42.ru/news''], snapshots = [], persisted = []\<rparr>"
              "''https://vse42.ru/articles/1''" "\<lparr>ok = True, page = no_h1_article\<rparr>"
              1 "[(2, ''https://vse42.ru/articles/2'')]"]
  by (simp add: example_site_def no_h1_article_heading)

lemma run_with_missing_heading:
  "main (example_site \<lparr>ok = True, page = no_h1_article\<rparr> good_response) example_config =
     (Some AttributeError,
      Crawler\<lparr>urls := [''https://vse42.ru/articles/1'', ''https://vse42.ru/articles/2'']\<rparr>,
      \<lparr>requested = [''https://vse42.ru/news'', ''https://vse42.ru/articles/1''],
       snapshots = [[''https://vse42.ru/articles/1''],
                    [''https://vse42.ru/articles/1'', ''https://vse42.ru/articles/2'']],
       persisted = []\<rparr>)"
proof -
  have "parse (example_site \<lparr>ok = True, page = no_h1_article\<rparr> good_response) example_config
          ''https://vse42.ru/articles/1'' 1
          \<lparr>requested = [''https://vse42.ru/news''], snapshots = sn, persisted = []\<rparr> =
        (Inl AttributeError,
         \<lparr>requested = [''https://vse42.ru/news'', ''https://vse42.ru/articles/1''],
          snapshots = sn, persisted = []\<rparr>)" for sn
    by (subst parse_no_h1 [where r = "\<lparr>ok = True, page = no_h1_article\<rparr>"])
       (simp_all add: example_site_def no_h1_article_heading)
  then show ?thesis by (simp add: main_example)
qed

text \<open>
  Two URLs are collected; the page of the first has no heading, the page of the second
  is in order. The run ends with \<open>AttributeError\<close> and does not go on to the second URL,
  which is never requested; nothing is stored.
\<close>

theorem run_stops_at_missing_heading_counterexample:
  "fst (main (example_site \<lparr>ok = True, page = no_h1_article\<rparr> good_response)
          example_config) = Some AttributeError
   \<and> urls (fst (snd (main (example_site \<lparr>ok = True, page = no_h1_article\<rparr> good_response)
                        example_config))) =
       [''https://vse42.ru/articles/1'', ''https://vse42.ru/articles/2'']
   \<and> ''https://vse42.ru/articles/2'' \<notin>
       set (requested (snd (snd (main (example_site \<lparr>ok = True, page = no_h1_article\<rparr>
                                          good_response) example_config))))
   \<and> persisted (snd (snd (main (example_site \<lparr>ok = True, page = no_h1_article\<rparr>
                                   good_response) example_config))) = []"
  by (simp add: run_with_missing_heading)

theorem failed_fetch_is_stored_witness:
  "articles_loop (example_site \<lparr>ok = False, page = []\<rparr> good_response) example_config
     [(1, ''https://vse42.ru/articles/1'')]
     \<lparr>requested = [''https://vse42.ru/news''], snapshots = [], persisted = []\<rparr> =
   (None,
    \<lparr>requested = [''https://vse42.ru/news'', ''https://vse42.ru/articles/1''],
     snapshots = [],
     persisted = [to_raw (Article ''https://vse42.ru/articles/1'' 1),
                  to_meta (Article ''https://vse42.ru/articles/1'' 1)]\<rparr>)"
  using failed_fetch_is_stored
          [of "example_site \<lparr>ok = False, page = []\<rparr> good_response"
              "\<lparr>requested = [''https://vse42.ru/news''], snapshots = [], persisted = []\<rparr>"
              "''https://vse42.ru/articles/1''" "\<lparr>ok = False, page = []\<rparr>"
              example_config 1 "[]"]
  by (simp add: example_site_def)

text \<open>
  The request for the first of two collected URLs is not \<open>ok\<close>: its record, with nothing
  but identifier and URL, is handed to both sinks, before the record of the second.
\<close>

lemma run_with_failed_fetch:
  "main (example_site \<lparr>ok = False, page = []\<rparr> good_response) example_config =
     (None,
      Crawler\<lparr>urls := [''https://vse42.ru/articles/1'', ''https://vse42.ru/articles/2'']\<rparr>,
      \<lparr>requested = [''https://vse42.ru/news'', ''https://vse42.ru/articles/1'',
                    ''https://vse42.ru/articles/2''],
       snapshots = [[''https://vse42.ru/articles/1''],
                    [''https://vse42.ru/articles/1'', ''https://vse42.ru/articles/2'']],
       persisted = [to_raw (Article ''https://vse42.ru/articles/1'' 1),
                    to_meta (Article ''https://vse42.ru/articles/1'' 1),
                    to_raw (parsed_good ''https://vse42.ru/articles/2'' 2),
                    to_meta (parsed_good ''https://vse42.ru/articles/2'' 2)]\<rparr>)"
proof -
  have a: "parse (example_site \<lparr>ok = False, page = []\<rparr> good_response) example_config
          ''https://vse42.ru/articles/1'' 1
          \<lparr>requested = [''https://vse42.ru/news''], snapshots = sn, persisted = []\<rparr> =
        (Inr (Article ''https://vse42.ru/articles/1'' 1),
         \<lparr>requested = [''https://vse42.ru/news'', ''https://vse42.ru/articles/1''],
          snapshots = sn, persisted = []\<rparr>)" for sn
    by (subst parse_not_ok [where r = "\<lparr>ok = False, page = []\<rparr>"])
       (simp_all add: example_site_def)
  have b: "parse (example_site \<lparr>ok = False, page = []\<rparr> good_response) example_config
             ''https://vse42.ru/articles/2'' 2
             \<lparr>requested = [''https://vse42.ru/news'', ''https://vse42.ru/articles/1''],
              snapshots = sn, persisted = ps\<rparr> =
           (Inr (parsed_good ''https://vse42.ru/articles/2'' 2),
            \<lparr>requested = [''https://vse42.ru/news'', ''https://vse42.ru/articles/1'',
                          ''https://vse42.ru/articles/2''],
             snapshots = sn, persisted = ps\<rparr>)" for sn ps
    by (subst parse_good) (simp_all add: example_site_def)
  show ?thesis by (simp add: main_example a b)
qed

theorem fallback_date_is_rejected_witness:
  "fill_article_with_meta_information no_time_article (Article ''u'' 1) = Inl ValueError
   \<and> (\<exists>a'. fill_article_with_meta_information good_article (Article ''u'' 1) = Inr a'
          \<and> date a' =
              Some \<lparr>year = 2023, month = 5, day = 10, hour = 12, minute = 0,
                    second = 0, microsecond = 0, utcoffset = 10800000000\<rparr>)"
proof -
  have h1: "find_first ''h1'' no_time_article = Some (Elem ''h1'' [] [Text ''Title''])"
    and t1: "find_first ''time'' no_time_article = None"
    by (simp_all add: find_first_def find_all_def descendants_def matches_def
          no_time_article_def para_def)
  have h2: "find_first ''h1'' good_article = Some (Elem ''h1'' [] [Text '' Title ''])"
    and t2: "find_first ''time'' good_article =
               Some (Elem ''time'' [(''datetime'', AStr ''2023-05-10T12:00:00+0300'')] [])"
    by (simp_all add: find_first_def find_all_def descendants_def matches_def
          good_article_def para_def)
  from fallback_date_is_rejected [OF h1, of "Article ''u'' 1"] t1
  have "fill_article_with_meta_information no_time_article (Article ''u'' 1) = Inl ValueError"
    by blast
  moreover from fallback_date_is_rejected [OF h2, of "Article ''u'' 1"] t2
  have "\<exists>a'. fill_article_with_meta_information good_article (Article ''u'' 1) = Inr a'
          \<and> date a' =
              Some \<lparr>year = 2023, month = 5, day = 10, hour = 12, minute = 0,
                    second = 0, microsecond = 0, utcoffset = 10800000000\<rparr>"
    by simp
  ultimately show ?thesis by blast
qed

text \<open>
  A page with a heading and no \<open>time\<close> tag, as the first of two collected URLs: the run
  ends with the \<open>ValueError\<close> of the fallback date and stores nothing.
\<close>

lemma run_without_time_tag:
  "main (example_site \<lparr>ok = True, page = no_time_article\<rparr> good_response) example_config =
     (Some ValueError,
      Crawler\<lparr>urls := [''https://vse42.ru/articles/1'', ''https://vse42.ru/articles/2'']\<rparr>,
      \<lparr>requested = [''https://vse42.ru/news'', ''https://vse42.ru/articles/1''],
       snapshots = [[''https://vse42.ru/articles/1''],
                    [''https://vse42.ru/articles/1'', ''https://vse42.ru/articles/2'']],
       persisted = []\<rparr>)"
proof -
  have "fill_article_with_meta_information
          (decompose_all ''lead'' (decompose_all ''footer'' no_time_article)) a
        = Inl ValueError" for a
    by (simp add: fill_article_with_meta_information_def Let_def no_time_article_tags
          unify_fallback)
  then have "parse (example_site \<lparr>ok = True, page = no_time_article\<rparr> good_response)
          example_config ''https://vse42.ru/articles/1'' 1
          \<lparr>requested = [''https://vse42.ru/news''], snapshots = sn, persisted = []\<rparr> =
        (Inl ValueError,
         \<lparr>requested = [''https://vse42.ru/news'', ''https://vse42.ru/articles/1''],
          snapshots = sn, persisted = []\<rparr>)" for sn
    by (simp add: parse_def make_request_def Let_def example_site_def fill_text_result)
  then show ?thesis by (simp add: main_example)
qed

end
